theory Spec2Isabelle
  imports Main "HOL-Library.Sublist"
begin

text \<open>
  A model of the coordination code of the game-server manager: the boolean parser, the
  lock service, the driver of the content tool, the request handler of the download
  manager and the start-up sequence of the lifecycle coordinator. Each function of
  the source is a function on values; what a handler meets from outside (the clock,
  the file system, other processes, the content tool) is a parameter.
\<close>

section \<open>JavaScript values\<close>

text \<open>
  The managers exchange JSON payloads and read environment variables. A value is one of
  the JSON shapes, \<open>undefined\<close>, or an \<open>Error\<close> object (which carries its message in a
  non-enumerable property). Numbers are the integers the program uses (exit codes,
  timestamps, counters). Strings are lists of ASCII code units. An object is the list
  of its own enumerable properties in insertion order, keys distinct.
\<close>

datatype jsval =
    JUndefined
  | JNull
  | JBool bool
  | JNum int
  | JStr string
  | JArr "jsval list"
  | JObj "(string \<times> jsval) list"
  | JErr string

datatype js_error = TypeError string | ThrownError string

text \<open>\<open>Boolean(v)\<close>, the truthiness used by \<open>if (v)\<close>, \<open>!v\<close> and \<open>a || b\<close>.\<close>

fun truthy :: "jsval \<Rightarrow> bool" where
  "truthy JUndefined = False"
| "truthy JNull = False"
| "truthy (JBool b) = b"
| "truthy (JNum n) = (n \<noteq> 0)"
| "truthy (JStr s) = (s \<noteq> [])"
| "truthy (JArr xs) = True"
| "truthy (JObj ps) = True"
| "truthy (JErr m) = True"

text \<open>\<open>a || b\<close>: the left operand when it is truthy, the right one otherwise.\<close>

definition js_or :: "jsval \<Rightarrow> jsval \<Rightarrow> jsval" where
  "js_or a b = (if truthy a then a else b)"

text \<open>Decimal text of a number, as \<open>String(n)\<close> and \<open>JSON.stringify(n)\<close> print an integer.\<close>

definition digit_char :: "int \<Rightarrow> char" where
  "digit_char d = ''0123456789'' ! nat d"

function string_of_digits :: "int \<Rightarrow> string" where
  "string_of_digits i =
     (if i < 10 then [digit_char i]
      else string_of_digits (i div 10) @ [digit_char (i mod 10)])"
  by pat_completeness auto
termination
  by (relation "measure nat") auto

declare string_of_digits.simps [simp del]

definition string_of_int :: "int \<Rightarrow> string" where
  "string_of_int i =
     (if i < 0 then CHR ''-'' # string_of_digits (- i) else string_of_digits i)"

fun join :: "string \<Rightarrow> string list \<Rightarrow> string" where
  "join sep [] = []"
| "join sep [x] = x"
| "join sep (x # xs) = x @ sep @ join sep xs"

text \<open>
  The string conversion of template literals (\<open>`${v}`\<close>) and of \<open>String(v)\<close>.
\<close>

fun js_toString :: "jsval \<Rightarrow> string" where
  "js_toString JUndefined = ''undefined''"
| "js_toString JNull = ''null''"
| "js_toString (JBool b) = (if b then ''true'' else ''false'')"
| "js_toString (JNum n) = string_of_int n"
| "js_toString (JStr s) = s"
| "js_toString (JArr xs) =
     join '','' (map (\<lambda>x. if x = JNull \<or> x = JUndefined then [] else js_toString x) xs)"
| "js_toString (JObj ps) = ''[object Object]''"
| "js_toString (JErr m) = (if m = [] then ''Error'' else ''Error: '' @ m)"

text \<open>
  \<open>JSON.stringify\<close>. A property whose value is \<open>undefined\<close> is left out, an \<open>undefined\<close>
  array element prints as \<open>null\<close>, and an \<open>Error\<close> object prints as \<open>{}\<close>: its \<open>message\<close>
  and \<open>stack\<close> are not enumerable.
\<close>

definition hex_digit :: "nat \<Rightarrow> char" where
  "hex_digit n = ''0123456789abcdef'' ! n"

definition json_escape_char :: "char \<Rightarrow> string" where
  "json_escape_char c =
     (let n = (of_char c :: nat) in
      if n = 34 then [CHR 0x5C, CHR 0x22]
      else if n = 92 then [CHR 0x5C, CHR 0x5C]
      else if n = 8 then [CHR 0x5C, CHR ''b'']
      else if n = 9 then [CHR 0x5C, CHR ''t'']
      else if n = 10 then [CHR 0x5C, CHR ''n'']
      else if n = 12 then [CHR 0x5C, CHR ''f'']
      else if n = 13 then [CHR 0x5C, CHR ''r'']
      else if n < 32 then
        [CHR 0x5C, CHR ''u'', CHR ''0'', CHR ''0'', hex_digit (n div 16), hex_digit (n mod 16)]
      else [c])"

definition json_quote :: "string \<Rightarrow> string" where
  "json_quote s = [CHR 0x22] @ concat (map json_escape_char s) @ [CHR 0x22]"

fun JSON_stringify :: "jsval \<Rightarrow> string option" where
  "JSON_stringify JUndefined = None"
| "JSON_stringify JNull = Some ''null''"
| "JSON_stringify (JBool b) = Some (if b then ''true'' else ''false'')"
| "JSON_stringify (JNum n) = Some (string_of_int n)"
| "JSON_stringify (JStr s) = Some (json_quote s)"
| "JSON_stringify (JArr xs) =
     Some (''['' @ join '',''
        (map (\<lambda>x. case JSON_stringify x of None \<Rightarrow> ''null'' | Some t \<Rightarrow> t) xs) @ '']'')"
| "JSON_stringify (JObj ps) =
     Some (''{'' @ join '',''
        (concat (map (\<lambda>p. case JSON_stringify (snd p) of
                             None \<Rightarrow> []
                           | Some t \<Rightarrow> [json_quote (fst p) @ '':'' @ t]) ps))
        @ ''}'')"
| "JSON_stringify (JErr m) = Some ''{}''"

text \<open>Objects: reading a property, and assigning one (\<open>obj.k = v\<close>).\<close>

type_synonym props = "(string \<times> jsval) list"

definition get_prop :: "props \<Rightarrow> string \<Rightarrow> jsval" where
  "get_prop ps k = (case map_of ps k of None \<Rightarrow> JUndefined | Some v \<Rightarrow> v)"

definition hasOwnProperty :: "props \<Rightarrow> string \<Rightarrow> bool" where
  "hasOwnProperty ps k = (map_of ps k \<noteq> None)"

fun set_prop :: "props \<Rightarrow> string \<Rightarrow> jsval \<Rightarrow> props" where
  "set_prop [] k v = [(k, v)]"
| "set_prop ((k', v') # ps) k v = (if k' = k then (k, v) # ps else (k', v') # set_prop ps k v)"

text \<open>
  \<open>v == 'text'\<close> against a string literal: a string compares by content, an array, an
  object or an error through its string conversion; a number, a boolean, \<open>null\<close> and
  \<open>undefined\<close> never equal a non-numeric, non-empty literal.
\<close>

fun loose_eq_literal :: "jsval \<Rightarrow> string \<Rightarrow> bool" where
  "loose_eq_literal (JStr s) l = (s = l)"
| "loose_eq_literal (JArr xs) l = (js_toString (JArr xs) = l)"
| "loose_eq_literal (JObj ps) l = (js_toString (JObj ps) = l)"
| "loose_eq_literal (JErr m) l = (js_toString (JErr m) = l)"
| "loose_eq_literal _ l = False"

text \<open>How an awaited promise ends; \<open>Pending\<close> is a promise that never settles.\<close>

datatype 'a settle = Resolved 'a | Rejected jsval | Pending

text \<open>How a run of an async handler ends.\<close>

datatype handler_end = Returned | Threw js_error | Suspended

section \<open>lib/parseBool.mjs\<close>

text \<open>
  Strings are lists of 8-bit code units (Latin-1). On these,
  \<open>String.prototype.toLowerCase\<close> maps \<open>A\<close>-\<open>Z\<close> (65-90) and the capital letters 192-222
  other than the multiplication sign 215 to the code unit 32 above, and leaves every
  other code unit alone. \<open>String.prototype.trim\<close> removes, at both ends, the white space
  and line terminators of ECMAScript: TAB, LF, VT, FF, CR (9-13), SP (32) and NBSP (160).
\<close>

definition lower_char :: "char \<Rightarrow> char" where
  "lower_char c =
     (let n = (of_char c :: nat) in
      if n \<in> set ([65..<91] @ [192..<215] @ [216..<223]) then char_of (n + 32) else c)"

definition toLowerCase :: "string \<Rightarrow> string" where
  "toLowerCase s = map lower_char s"

definition is_ws :: "char \<Rightarrow> bool" where
  "is_ws c = ((of_char c :: nat) \<in> set [9, 10, 11, 12, 13, 32, 160])"

definition trim :: "string \<Rightarrow> string" where
  "trim s = rev (dropWhile is_ws (rev (dropWhile is_ws s)))"

text \<open>
  \<^verbatim>\<open>
  export function parseBool(string) {
    if (string) {
      switch (string.toLowerCase().trim()) {
        case 'true': case 'yes': case '1': return true;
        case 'false': case 'no': case '0': case '': case null: return false;
        default: return Boolean(string);
      }
    } else { return false; }
  }
  \<close>
  A truthy argument that is not a string has no \<open>toLowerCase\<close> method: the call throws
  a TypeError. The label \<open>case null\<close> is compared with \<open>===\<close> against a string and never
  matches.
\<close>

definition parseBool :: "jsval \<Rightarrow> js_error + bool" where
  "parseBool string =
     (if truthy string then
        (case string of
           JStr s \<Rightarrow>
             (let t = trim (toLowerCase s) in
              if t = ''true'' \<or> t = ''yes'' \<or> t = ''1'' then Inr True
              else if t = ''false'' \<or> t = ''no'' \<or> t = ''0'' \<or> t = '''' then Inr False
              else Inr (truthy string))
         | _ \<Rightarrow> Inl (TypeError ''string.toLowerCase is not a function''))
      else Inr False)"

text \<open>\<open>parseBool(x) || dflt\<close> as the modules write it for their boolean settings.\<close>

definition parseBool_or :: "jsval \<Rightarrow> bool \<Rightarrow> js_error + bool" where
  "parseBool_or v dflt =
     (case parseBool v of
        Inl e \<Rightarrow> Inl e
      | Inr b \<Rightarrow> (case js_or (JBool b) (JBool dflt) of JBool r \<Rightarrow> Inr r | _ \<Rightarrow> Inr b))"

text \<open>\<open>process.env.NAME\<close>: a string when the variable is set, \<open>undefined\<close> otherwise.\<close>

definition env_get :: "(string \<rightharpoonup> string) \<Rightarrow> string \<Rightarrow> jsval" where
  "env_get env name = (case env name of None \<Rightarrow> JUndefined | Some s \<Rightarrow> JStr s)"

section \<open>lib/lock.mjs\<close>

text \<open>
  The lock directory is read with \<open>fs.readdirSync\<close>; the listing is the list of file names
  in the order the call returns them. Three things come from outside the repository and
  are parameters: the regular-expression engine (\<open>new RegExp(pattern)\<close>, which throws on
  a malformed pattern, and its \<open>test\<close>), the outcome of \<open>checkLockPath\<close>/\<open>listLocks\<close>
  (which throw on I/O errors), and \<open>checkSync\<close> of the \<open>lockfile\<close> package, called with
  the file name and the value stored in \<open>lockCheckOpts.stale\<close>.
\<close>

record lock_env =
  RegExp :: "string \<Rightarrow> js_error + (string \<Rightarrow> bool)"
  checkLockPath :: "js_error option"
  listLocks :: "js_error + string list"
  checkSync :: "string \<Rightarrow> jsval \<Rightarrow> js_error + bool"

text \<open>
  \<^verbatim>\<open>
  for (let i = 0; i <= locks.length; i++) {
    if (regex.test(locks[i])) {
      const lockPath = path.resolve(`${lockDir}/${locks[i]}`);
      const lockStatus = lock.checkSync(lockPath, lockCheckOpts);
      return resolve(lockStatus);
    } else if (i === locks.length) {
      return resolve(false);
    }
  }
  \<close>
  The index runs up to \<open>locks.length\<close> inclusive; there \<open>locks[i]\<close> is \<open>undefined\<close>, which
  \<open>regex.test\<close> and the template string both turn into the text \<open>undefined\<close>.
\<close>

fun isLocked_loop ::
  "(string \<Rightarrow> bool) \<Rightarrow> (string \<Rightarrow> js_error + bool) \<Rightarrow> string list \<Rightarrow> js_error + bool" where
  "isLocked_loop test chk [] = (if test ''undefined'' then chk ''undefined'' else Inr False)"
| "isLocked_loop test chk (l # ls) = (if test l then chk l else isLocked_loop test chk ls)"

definition isLocked :: "lock_env \<Rightarrow> string \<Rightarrow> jsval \<Rightarrow> js_error + bool" where
  "isLocked E pattern stale =
     (case checkLockPath E of
        Some e \<Rightarrow> Inl e
      | None \<Rightarrow>
          (let lockCheckOpts_stale = (if truthy stale then stale else JBool False) in
           case RegExp E pattern of
             Inl e \<Rightarrow> Inl e
           | Inr regex \<Rightarrow>
               (case listLocks E of
                  Inl e \<Rightarrow> Inl e
                | Inr locks \<Rightarrow>
                    isLocked_loop regex (\<lambda>name. checkSync E name lockCheckOpts_stale) locks)))"

section \<open>Regular expressions of lib/steamcmd.mjs\<close>

text \<open>
  The two progress patterns are anchored at both ends and use literals, character
  classes, greedy repetition of a class, and capture groups. \<open>rmatch\<close> lists every way
  a pattern matches a prefix of the input, in the order a backtracking matcher tries
  them (greedy repetitions longest first), each with its captures and the rest of the
  input.
\<close>

datatype cclass = CDigit | CAlpha | CWord | CWordOrSpace | CSpace | CHexLower | CAny

definition is_digit :: "char \<Rightarrow> bool" where
  "is_digit c = (let n = (of_char c :: nat) in 48 \<le> n \<and> n \<le> 57)"

definition is_alpha :: "char \<Rightarrow> bool" where
  "is_alpha c = (let n = (of_char c :: nat) in (65 \<le> n \<and> n \<le> 90) \<or> (97 \<le> n \<and> n \<le> 122))"

fun in_class :: "cclass \<Rightarrow> char \<Rightarrow> bool" where
  "in_class CDigit c = is_digit c"
| "in_class CAlpha c = is_alpha c"
| "in_class CWord c = (is_alpha c \<or> is_digit c \<or> c = CHR ''_'')"
| "in_class CWordOrSpace c = (is_alpha c \<or> is_digit c \<or> c = CHR ''_'' \<or> c = CHR '' '')"
| "in_class CSpace c = is_ws c"
| "in_class CHexLower c =
     (is_digit c \<or> (let n = (of_char c :: nat) in 97 \<le> n \<and> n \<le> 102))"
| "in_class CAny c = ((of_char c :: nat) \<noteq> 10 \<and> (of_char c :: nat) \<noteq> 13)"

datatype regex =
    Lit string
  | Cls cclass
  | Rep cclass nat "nat option"
  | Seq regex regex
  | Cap regex

fun rmatch :: "regex \<Rightarrow> string \<Rightarrow> (string list \<times> string) list" where
  "rmatch (Lit l) s = (if prefix l s then [([], drop (length l) s)] else [])"
| "rmatch (Cls c) s = (case s of [] \<Rightarrow> [] | x # xs \<Rightarrow> if in_class c x then [([], xs)] else [])"
| "rmatch (Rep c lo hi) s =
     (let n = length (takeWhile (in_class c) s);
          m = (case hi of None \<Rightarrow> n | Some h \<Rightarrow> min n h)
      in map (\<lambda>k. ([], drop k s)) (rev [lo ..< Suc m]))"
| "rmatch (Seq a b) s =
     concat (map (\<lambda>(cs, r). map (\<lambda>(cs', r'). (cs @ cs', r')) (rmatch b r)) (rmatch a s))"
| "rmatch (Cap a) s = map (\<lambda>(cs, r). (take (length s - length r) s # cs, r)) (rmatch a s)"

text \<open>\<open>line.match(/^...$/)\<close>: the captures of the first way that consumes the whole line.\<close>

definition regex_match :: "regex \<Rightarrow> string \<Rightarrow> string list option" where
  "regex_match r s = map_option fst (find (\<lambda>(cs, rest). rest = []) (rmatch r s))"

definition regex_test :: "regex \<Rightarrow> string \<Rightarrow> bool" where
  "regex_test r s = (regex_match r s \<noteq> None)"

fun seqs :: "regex list \<Rightarrow> regex" where
  "seqs [] = Lit []"
| "seqs [r] = r"
| "seqs (r # rs) = Seq r (seqs rs)"

text \<open>
  \<^verbatim>\<open>/^\[\s{0,2}([0-9]+)%\] ([A-Za-z]+).*\(([0-9]+) of ([0-9]+).*$/\<close>
\<close>

definition steamCmdDownloadStateRegex :: regex where
  "steamCmdDownloadStateRegex =
     seqs [Lit ''['', Rep CSpace 0 (Some 2), Cap (Rep CDigit 1 None), Lit ''%] '',
           Cap (Rep CAlpha 1 None), Rep CAny 0 None, Lit ''('', Cap (Rep CDigit 1 None),
           Lit '' of '', Cap (Rep CDigit 1 None), Rep CAny 0 None]"

text \<open>
  \<^verbatim>\<open>/^(?: Update state )\(([\d]x[\d]+)\) ([\w ]*)(?:\, progress\: )([\d]+\.[\d]+) \(([\d]+)(?: \/ )([\d]+)\)$/\<close>
\<close>

definition appidDownloadStateRegex :: regex where
  "appidDownloadStateRegex =
     seqs [Lit '' Update state '', Lit ''('',
           Cap (seqs [Cls CDigit, Lit ''x'', Rep CDigit 1 None]), Lit '') '',
           Cap (Rep CWordOrSpace 0 None), Lit '', progress: '',
           Cap (seqs [Rep CDigit 1 None, Lit ''.'', Rep CDigit 1 None]), Lit '' ('',
           Cap (Rep CDigit 1 None), Lit '' / '', Cap (Rep CDigit 1 None), Lit '')'']"

text \<open>
  The pattern the specification gives for the same lines:
  \<^verbatim>\<open>^ Update state \((0x[0-9a-f]+)\) ([\w ]*), progress: (\d+\.\d+) \((\d+) / (\d+)\)$\<close>
\<close>

definition spec_gameDownloadRegex :: regex where
  "spec_gameDownloadRegex =
     seqs [Lit '' Update state ('',
           Cap (seqs [Lit ''0x'', Rep CHexLower 1 None]), Lit '') '',
           Cap (Rep CWordOrSpace 0 None), Lit '', progress: '',
           Cap (seqs [Rep CDigit 1 None, Lit ''.'', Rep CDigit 1 None]), Lit '' ('',
           Cap (Rep CDigit 1 None), Lit '' / '', Cap (Rep CDigit 1 None), Lit '')'']"

section \<open>lib/steamcmd.mjs: the output handler of runSteamCmd\<close>

datatype sink_push = OutputPush jsval | ProgressPush jsval | CommandPush jsval

text \<open>\<open>rawData.split('\r\n')\<close>.\<close>

fun split_crlf :: "string \<Rightarrow> string \<Rightarrow> string list" where
  "split_crlf acc [] = [rev acc]"
| "split_crlf acc [c] = [rev (c # acc)]"
| "split_crlf acc (c # d # cs) =
     (if (of_char c :: nat) = 13 \<and> (of_char d :: nat) = 10
      then rev acc # split_crlf [] cs
      else split_crlf (c # acc) (d # cs))"

text \<open>
  The body of the loop in \<open>steamcmdChild.onData\<close> for one element of the split data:
  a non-empty line is pushed to the output sink and tested against both patterns;
  each pattern that matches pushes its own progress snapshot.
\<close>

definition selfProgressSnapshot :: "string \<Rightarrow> string list \<Rightarrow> jsval" where
  "selfProgressSnapshot line m =
     JObj [(''downloadStage'', JStr ''steamcmd_download''),
           (''downloadStateHex'', JStr ''0x00''),
           (''downloadState'', JStr (toLowerCase (m ! 1))),
           (''downloadProgress'', JStr (trim (m ! 0))),
           (''downloadProgressReceived'', JStr (m ! 2)),
           (''downloadProgressTotal'', JStr (m ! 3)),
           (''progressLine'', JStr line)]"

definition appidProgressSnapshot :: "string \<Rightarrow> string list \<Rightarrow> jsval" where
  "appidProgressSnapshot line m =
     JObj [(''downloadStage'', JStr ''appid_download''),
           (''downloadStateHex'', JStr (m ! 0)),
           (''downloadState'', JStr (m ! 1)),
           (''downloadProgress'', JStr (m ! 2)),
           (''downloadProgressReceived'', JStr (m ! 3)),
           (''downloadProgressTotal'', JStr (m ! 4)),
           (''progressLine'', JStr line)]"

definition onData_line :: "string \<Rightarrow> string \<Rightarrow> sink_push list" where
  "onData_line timestamp line =
     (if line \<noteq> [] then
        [OutputPush (JObj [(''timestamp'', JStr timestamp), (''line'', JStr line)])]
        @ (case regex_match steamCmdDownloadStateRegex line of
             Some m \<Rightarrow> [ProgressPush (selfProgressSnapshot line m)]
           | None \<Rightarrow> [])
        @ (case regex_match appidDownloadStateRegex line of
             Some m \<Rightarrow> [ProgressPush (appidProgressSnapshot line m)]
           | None \<Rightarrow> [])
      else [])"

definition onData :: "string \<Rightarrow> string \<Rightarrow> sink_push list" where
  "onData timestamp rawData = concat (map (onData_line timestamp) (split_crlf [] rawData))"

text \<open>Whether a push is a progress snapshot of the game-download stage.\<close>

fun is_appid_progress :: "sink_push \<Rightarrow> bool" where
  "is_appid_progress (ProgressPush (JObj ps)) =
     (map_of ps ''downloadStage'' = Some (JStr ''appid_download''))"
| "is_appid_progress _ = False"

text \<open>
  An example lock directory: two instances of \<open>csgo\<close> have a base-mount lock file.
  Without a staleness threshold the lock library reports every file as held; with a
  threshold it reports the first one listed as stale and the second one as held. The
  engine knows the pattern \<open>^baseMount-csgo-.*$\<close> that the download manager builds.
\<close>

definition baseMount_csgo_regex :: regex where
  "baseMount_csgo_regex = Seq (Lit ''baseMount-csgo-'') (Rep CAny 0 None)"

definition example_RegExp :: "string \<Rightarrow> js_error + (string \<Rightarrow> bool)" where
  "example_RegExp pattern =
     (if pattern = ''^baseMount-csgo-.*$'' then Inr (regex_test baseMount_csgo_regex)
      else Inl (ThrownError ''SyntaxError: Invalid regular expression''))"

definition example_checkSync :: "string \<Rightarrow> jsval \<Rightarrow> js_error + bool" where
  "example_checkSync name stale =
     Inr (if truthy stale then name = ''baseMount-csgo-beta'' else True)"

definition two_mounts :: lock_env where
  "two_mounts =
     \<lparr>RegExp = example_RegExp,
      checkLockPath = None,
      listLocks = Inr [''baseMount-csgo-alpha'', ''baseMount-csgo-beta''],
      checkSync = example_checkSync\<rparr>"

section \<open>lib/steamcmd.mjs: runSteamCmd and the exit-code policy\<close>

record steamcmd_options =
  script :: "string list option"
  steamCmdDir :: "string option"

text \<open>
  What happens to one spawn of the tool: \<open>pty.spawn\<close> throws; the exit-signal forwarder
  fires first (the promise is rejected with \<open>SHUTDOWN\<close>); or the child exits with an exit
  code and a signal, with \<open>cancelInProgress\<close> set or not by a cancel command received
  while it ran. The behaviour of the tool over successive spawns is a sequence of these.
\<close>

datatype child_end =
    SpawnThrows jsval
  | ExitSignal
  | Exited bool int jsval

fun split_space :: "string \<Rightarrow> string \<Rightarrow> string list" where
  "split_space acc [] = [rev acc]"
| "split_space acc (c # cs) =
     (if c = CHR '' '' then rev acc # split_space [] cs else split_space (c # acc) cs)"

text \<open>\<open>steamcmdCommandLine.join(' ').split(' ')\<close>, the argument vector given to the tool.\<close>

definition steamcmdCommandLineNormalized :: "string list \<Rightarrow> string list" where
  "steamcmdCommandLineNormalized steamcmdCommandLine =
     split_space [] (join '' '' steamcmdCommandLine)"

definition exit_object :: "int \<Rightarrow> jsval \<Rightarrow> props" where
  "exit_object exitCode signal = [(''exitCode'', JNum exitCode), (''signal'', signal)]"

text \<open>
  \<^verbatim>\<open>
  steamcmdChild.onExit(async (code) => {
    if (cancelInProgress) { ...; code.reason = 'canceled'; code.status = 'canceled';
                            code.error = false; return resolve(code); }
    else if (code.exitCode === 42) {
      var retryExitCode = null;
      try { retryExitCode = await runSteamCmd(options, outputSink, progressSink, commandSink); }
      catch (error) { return reject(error); }
      return resolve(retryExitCode);
    } else if (code.exitCode === 0) { code.reason = 'completed'; code.status = 'completed';
                                      code.error = false; return resolve(code); }
    else { code.error = true; return reject(code); }
  });
  \<close>
  Before the spawn, \<open>steamcmdCommandLine[steamcmdCommandLine.length] === '+quit'\<close> reads
  past the end of the script, so nothing is ever appended to it.
  \<open>runSteamCmd options runs n spawned\<close> is the call whose spawn is number \<open>n\<close> of the
  sequence \<open>runs\<close>; \<open>spawned\<close> collects the argument vectors of the spawns made so far.
  The result is \<open>None\<close> when the promise never settles.
\<close>

partial_function (option) runSteamCmd ::
  "steamcmd_options \<Rightarrow> (nat \<Rightarrow> child_end) \<Rightarrow> nat \<Rightarrow> string list list
     \<Rightarrow> (props settle \<times> string list list) option" where
  "runSteamCmd options runs n spawned =
     (let dir = (case steamCmdDir options of Some d \<Rightarrow> d | None \<Rightarrow> []) in
      if dir = [] then Some (Rejected (JErr ''steamCmdDir required''), spawned)
      else
        let steamcmdCommandLine = (case script options of Some sc \<Rightarrow> sc | None \<Rightarrow> [''+quit'']);
            argv = steamcmdCommandLineNormalized steamcmdCommandLine
        in (case runs n of
              SpawnThrows e \<Rightarrow> Some (Rejected e, spawned)
            | ExitSignal \<Rightarrow> Some (Rejected (JErr ''SHUTDOWN''), spawned @ [argv])
            | Exited cancelInProgress exitCode signal \<Rightarrow>
                if cancelInProgress then
                  Some (Resolved (set_prop (set_prop (set_prop (exit_object exitCode signal)
                          ''reason'' (JStr ''canceled'')) ''status'' (JStr ''canceled''))
                          ''error'' (JBool False)),
                        spawned @ [argv])
                else if exitCode = 42 then
                  runSteamCmd options runs (Suc n) (spawned @ [argv])
                else if exitCode = 0 then
                  Some (Resolved (set_prop (set_prop (set_prop (exit_object exitCode signal)
                          ''reason'' (JStr ''completed'')) ''status'' (JStr ''completed''))
                          ''error'' (JBool False)),
                        spawned @ [argv])
                else
                  Some (Rejected (JObj (set_prop (exit_object exitCode signal)
                          ''error'' (JBool True))),
                        spawned @ [argv])))"

text \<open>A spawn that ends by a plain exit with code 42, no cancel in progress.\<close>

fun respawns :: "child_end \<Rightarrow> bool" where
  "respawns (Exited cancelInProgress exitCode signal) = (\<not> cancelInProgress \<and> exitCode = 42)"
| "respawns _ = False"

fun spawns_child :: "child_end \<Rightarrow> bool" where
  "spawns_child (SpawnThrows e) = False"
| "spawns_child _ = True"

text \<open>What the promise settles with when the spawn does not lead to a re-spawn.\<close>

fun final_settle :: "child_end \<Rightarrow> props settle" where
  "final_settle (SpawnThrows e) = Rejected e"
| "final_settle ExitSignal = Rejected (JErr ''SHUTDOWN'')"
| "final_settle (Exited cancelInProgress exitCode signal) =
     (if cancelInProgress then
        Resolved (set_prop (set_prop (set_prop (exit_object exitCode signal)
           ''reason'' (JStr ''canceled'')) ''status'' (JStr ''canceled'')) ''error'' (JBool False))
      else if exitCode = 0 then
        Resolved (set_prop (set_prop (set_prop (exit_object exitCode signal)
           ''reason'' (JStr ''completed'')) ''status'' (JStr ''completed'')) ''error'' (JBool False))
      else Rejected (JObj (set_prop (exit_object exitCode signal) ''error'' (JBool True))))"


text \<open>The argument vector of every spawn, and the guard on \<open>options.steamCmdDir\<close>.\<close>

definition argv_of :: "steamcmd_options \<Rightarrow> string list" where
  "argv_of options =
     steamcmdCommandLineNormalized (case script options of Some sc \<Rightarrow> sc | None \<Rightarrow> [''+quit''])"

definition has_steamCmdDir :: "steamcmd_options \<Rightarrow> bool" where
  "has_steamCmdDir options = (case steamCmdDir options of Some d \<Rightarrow> d \<noteq> [] | None \<Rightarrow> False)"

text \<open>Example inputs: the script built for an anonymous update of app 740.\<close>

definition example_options :: steamcmd_options where
  "example_options =
     \<lparr>script = Some [''+force_install_dir /opt/gsm/base/csgo'', ''+login anonymous'',
                     ''+app_update 740'', ''+quit''],
      steamCmdDir = Some ''/opt/gsm/steamcmd''\<rparr>"

definition always_42 :: "nat \<Rightarrow> child_end" where
  "always_42 n = Exited False 42 (JNum 0)"

definition six_times_42_then_0 :: "nat \<Rightarrow> child_end" where
  "six_times_42_then_0 n = (if n < 6 then Exited False 42 (JNum 0) else Exited False 0 (JNum 0))"

definition hex_letter_line :: string where
  "hex_letter_line = '' Update state (0x6a) downloading, progress: 45.65 (123 / 456)''"

definition hex_digit_line :: string where
  "hex_digit_line = '' Update state (0x61) downloading, progress: 45.65 (123 / 456)''"

section \<open>lib/exitHandlers.mjs and bin/lifecycleManager.mjs\<close>

text \<open>Sequencing of steps that may throw.\<close>

definition bind_err :: "'e + 'a \<Rightarrow> ('a \<Rightarrow> 'e + 'b) \<Rightarrow> 'e + 'b" where
  "bind_err r k = (case r of Inl e \<Rightarrow> Inl e | Inr a \<Rightarrow> k a)"

text \<open>
  The globals of the lifecycle coordinator, computed from the environment when the
  module is loaded. \<open>path.resolve\<close> is a parameter.
\<close>

record lc_globals =
  lc_gameId :: string
  lc_instanceId :: string
  lc_serverFilesBaseDir :: string
  lc_steamCmdDir :: string
  steamcmdFilesForce :: bool
  serverFilesForce :: bool
  steamcmdAnonymous :: bool
  steamcmdUsername :: jsval
  steamcmdPassword :: jsval
  steamcmdMultiFactorEnabled :: bool
  steamcmdForceValidate :: bool

definition env_or_false :: "(string \<rightharpoonup> string) \<Rightarrow> string \<Rightarrow> jsval" where
  "env_or_false env name = js_or (env_get env name) (JBool False)"

definition lifecycle_globals ::
  "(string list \<Rightarrow> string) \<Rightarrow> (string \<rightharpoonup> string) \<Rightarrow> js_error + lc_globals" where
  "lifecycle_globals path_resolve env =
     (let gameId = env_or_false env ''GAME_ID'';
          instanceId = env_or_false env ''INSTANCE_ID'';
          serverFilesRootDir0 = env_or_false env ''SERVER_FILES_ROOT_DIR''
      in
      if \<not> truthy gameId \<or> gameId = JStr [] then
        Inl (ThrownError ''process.env.GAME_ID required!'')
      else if \<not> truthy instanceId \<or> instanceId = JStr [] then
        Inl (ThrownError ''process.env.INSTANCE_ID required!'')
      else if \<not> truthy serverFilesRootDir0 \<or> serverFilesRootDir0 = JStr [] then
        Inl (ThrownError ''process.env.SERVER_FILES_ROOT_DIR required!'')
      else
        let serverFilesRootDir = path_resolve [js_toString serverFilesRootDir0] in
        bind_err (parseBool_or (env_get env ''STEAMCMD_FILES_FORCE'') False) (\<lambda>filesForce.
        bind_err (parseBool_or (env_get env ''SERVER_FILES_FORCE'') False) (\<lambda>serverForce.
        bind_err (parseBool_or (env_get env ''STEAMCMD_LOGIN_ANON'') True) (\<lambda>anonymous.
        bind_err (parseBool_or (env_get env ''STEAMCMD_TWOFACTOR_ENABLED'') False) (\<lambda>multiFactor.
        bind_err (parseBool_or (env_get env ''STEAMCMD_INITIAL_DOWNLOAD_VALIDATE'') False)
          (\<lambda>forceValidate.
        Inr \<lparr>lc_gameId = js_toString gameId,
             lc_instanceId = js_toString instanceId,
             lc_serverFilesBaseDir =
               path_resolve [serverFilesRootDir, ''base'', js_toString gameId],
             lc_steamCmdDir = path_resolve [serverFilesRootDir, ''steamcmd''],
             steamcmdFilesForce = filesForce,
             serverFilesForce = serverForce,
             steamcmdAnonymous = anonymous,
             steamcmdUsername = env_or_false env ''STEAMCMD_LOGIN_USERNAME'',
             steamcmdPassword = env_or_false env ''STEAMCMD_LOGIN_PASSWORD'',
             steamcmdMultiFactorEnabled = multiFactor,
             steamcmdForceValidate = forceValidate\<rparr>))))))"

text \<open>
  The request that the coordinator's \<open>downloadUpdateGame\<close> publishes on
  \<open>downloadManager.downloadUpdateGame\<close>, built from \<open>downloadUpdateGameOptions\<close>.
\<close>

definition lifecycle_request :: "lc_globals \<Rightarrow> string \<Rightarrow> props" where
  "lifecycle_request g requestId =
     [(''requestId'', JStr requestId),
      (''replyTo'', JStr (''lifecycleManager.'' @ requestId)),
      (''gameId'', JStr (lc_gameId g)),
      (''validate'', JBool (steamcmdForceValidate g)),
      (''steamCmdForce'', JBool (steamcmdFilesForce g)),
      (''steamCmdDir'', JStr (lc_steamCmdDir g)),
      (''serverFilesForce'', JBool (serverFilesForce g)),
      (''downloadDir'', JStr (lc_serverFilesBaseDir g)),
      (''anonymous'', JBool (steamcmdAnonymous g)),
      (''username'', steamcmdUsername g),
      (''password'', steamcmdPassword g),
      (''steamcmdMultiFactorEnabled'', JBool (steamcmdMultiFactorEnabled g))]"

text \<open>
  \<open>waitModuleRunning\<close>: every second the counter is incremented; when it reaches the
  timeout the promise is rejected, otherwise a ping is sent. A reply whose uptime is
  at least 5 resolves the promise. The input lists, per tick, the uptimes of the
  replies that arrive before the next tick. The result is whether the promise resolves.
\<close>

fun waitModuleRunning :: "int \<Rightarrow> int \<Rightarrow> int list list \<Rightarrow> bool" where
  "waitModuleRunning timeout pingCounter [] = False"
| "waitModuleRunning timeout pingCounter (uptimes # rest) =
     (if pingCounter + 1 \<ge> timeout then False
      else if list_ex (\<lambda>uptime. uptime \<ge> 5) uptimes then True
      else waitModuleRunning timeout (pingCounter + 1) rest)"

text \<open>
  \<open>waitTaskComplete(channel)\<close> over the messages delivered afterwards: an \<open>error\<close>
  message rejects with \<open>new Error(response)\<close>; a \<open>finalStatus\<close> resolves when its reason
  is \<open>completed\<close> and rejects with the status otherwise.
\<close>

fun waitTaskComplete :: "string \<Rightarrow> (string \<times> props) list \<Rightarrow> props settle" where
  "waitTaskComplete channel [] = Pending"
| "waitTaskComplete channel ((topic, payload) # ms) =
     (if topic = channel @ ''.error'' then Rejected (JErr (js_toString (JObj payload)))
      else if topic = channel @ ''.finalStatus'' then
        (if get_prop payload ''reason'' = JStr ''completed'' then Resolved payload
         else Rejected (JObj payload))
      else waitTaskComplete channel ms)"

text \<open>
  The coordinator's \<open>downloadUpdateGame\<close> after the request is published: an \<open>ack\<close>
  follows the channel named in \<open>subscribeTo\<close>; a \<open>nack\<close> does so when it names one.
\<close>

definition subscribeTo_of :: "props \<Rightarrow> jsval" where
  "subscribeTo_of payload =
     (if hasOwnProperty payload ''subscribeTo'' then get_prop payload ''subscribeTo''
      else JBool False)"

fun lc_downloadUpdateGame :: "string \<Rightarrow> (string \<times> props) list \<Rightarrow> props settle" where
  "lc_downloadUpdateGame replyTo [] = Pending"
| "lc_downloadUpdateGame replyTo ((topic, payload) # ms) =
     (if topic = replyTo @ ''.ack'' then
        waitTaskComplete (js_toString (subscribeTo_of payload)) ms
      else if topic = replyTo @ ''.nack'' \<and> truthy (subscribeTo_of payload) then
        waitTaskComplete (js_toString (subscribeTo_of payload)) ms
      else lc_downloadUpdateGame replyTo ms)"

text \<open>\<open>downloadUpdateServerConfigGit\<close> rejects at once: it is not implemented.\<close>

definition downloadUpdateServerConfigGit :: "props \<Rightarrow> props settle" where
  "downloadUpdateServerConfigGit options = Rejected (JErr ''not yet implemented!'')"

text \<open>
  The process as the handler changes it: the codes passed to \<open>exit\<close>, the value of
  \<open>process.exitCode\<close>, the requests published on the bus, whether the bus still
  delivers messages to this process, whether the force-exit timer of \<open>exit\<close> is armed,
  and the exception that this timer has thrown, if it has fired.
\<close>

record lc_state =
  exitCalls :: "int list"
  exitCode :: "int option"
  sent :: "(string \<times> props) list"
  watching :: bool
  forceExit :: bool
  uncaught :: "js_error option"

definition lc_init :: lc_state where
  "lc_init =
     \<lparr>exitCalls = [], exitCode = None, sent = [], watching = True, forceExit = False,
      uncaught = None\<rparr>"

text \<open>
  \<^verbatim>\<open>
  export function exit(moduleIdent = '', ipc = qfsq.QlobberFSQ, code = 0) {
    setTimeout(() => { throw new Error('Timeout expired, forcing exit.'); }, 5000).unref();
    ipc.unsubscribe();
    ipc.stop_watching();
    ipc.removeAllListeners();
    process.removeAllListeners();
    code ? (process.exitCode = code) : (process.exitCode = 0);
    process.nextTick(() => { releaseLock(moduleIdent); });
  }
  \<close>
  \<open>exit\<close> does not end the process. It arms a timer that throws after 5000 ms if the
  process is still alive then, removes every subscription and stops the bus, so that
  nothing is delivered to this process any more, sets \<open>process.exitCode\<close>, and returns
  to its caller: the handler goes on with its next statement. (On the next tick the
  lock file of the module is released; lock files are not part of this state.)
\<close>

definition exit :: "int \<Rightarrow> lc_state \<Rightarrow> lc_state" where
  "exit code s =
     s\<lparr>forceExit := True,
       watching := False,
       exitCode := Some (if code \<noteq> 0 then code else 0),
       exitCalls := exitCalls s @ [code]\<rparr>"

text \<open>
  The status with which the process ends: 1 when an exception is not caught, as the
  one thrown by the force-exit timer; otherwise the value of \<open>process.exitCode\<close>, once
  nothing keeps the process alive.
\<close>

definition exit_status :: "lc_state \<Rightarrow> int option" where
  "exit_status s = (case uncaught s of Some e \<Rightarrow> Some 1 | None \<Rightarrow> exitCode s)"

datatype lock_outcome = Acquired | LockFailed props | Waiting

record lc_env =
  lc_spinLock :: lock_outcome
  lc_releaseLock_ok :: bool
  dm_pongs :: "int list list"
  lc_requestId :: string
  bus :: "(string \<times> props) list"
  cm_pongs :: "int list list"

text \<open>A step of a handler: the new state, and how the handler ended if it did.\<close>

definition and_then ::
  "'s \<times> handler_end option \<Rightarrow> ('s \<Rightarrow> 's \<times> handler_end option) \<Rightarrow> 's \<times> handler_end option"
  where
  "and_then r k = (case r of (s, None) \<Rightarrow> k s | (s, Some e) \<Rightarrow> (s, Some e))"

text \<open>\<open>await releaseLock(...); exit(moduleIdent, ipc, code);\<close>\<close>

definition release_then_exit :: "lc_env \<Rightarrow> int \<Rightarrow> lc_state \<Rightarrow> lc_state \<times> handler_end option"
  where
  "release_then_exit E code s =
     (if lc_releaseLock_ok E then (exit code s, None)
      else (s, Some (Threw (ThrownError ''Unable to release lock''))))"

definition lc_acquire :: "lc_env \<Rightarrow> lc_state \<Rightarrow> lc_state \<times> handler_end option" where
  "lc_acquire E s =
     (case lc_spinLock E of
        Acquired \<Rightarrow> (s, None)
      | Waiting \<Rightarrow> (s, Some Suspended)
      | LockFailed error \<Rightarrow>
          if loose_eq_literal (get_prop error ''code'') ''EEXIST'' then (exit 1 s, None)
          else (s, None))"

text \<open>
  \<open>try { await waitModuleRunning(target, { timeout }) } catch (error) { await
  releaseLock(...); exit(moduleIdent, ipc, 2); }\<close>, with the replies \<open>pongs\<close> on their way.
  While the bus delivers, the wait resolves or is rejected as \<open>waitModuleRunning\<close> says.
  After \<open>exit\<close> has stopped the bus no reply is delivered, so the wait cannot resolve;
  its interval keeps the process alive and would reject the promise at tick number
  \<open>timeout\<close>, each tick 1000 ms after the one before. The force-exit timer, armed by
  \<open>exit\<close> just before the wait began, fires after 5000 ms, before the fifth tick: for a
  timeout of 5 or more the timer throws while the handler is still suspended in the
  wait.
\<close>

definition lc_wait ::
  "int \<Rightarrow> int list list \<Rightarrow> lc_env \<Rightarrow> lc_state \<Rightarrow> lc_state \<times> handler_end option" where
  "lc_wait timeout pongs E s =
     (if watching s then
        (if waitModuleRunning timeout 0 pongs then (s, None) else release_then_exit E 2 s)
      else if forceExit s \<and> 5 \<le> timeout then
        (s\<lparr>uncaught := Some (ThrownError ''Timeout expired, forcing exit.'')\<rparr>,
         Some Suspended)
      else release_then_exit E 2 s)"

definition lc_wait_downloadManager :: "lc_env \<Rightarrow> lc_state \<Rightarrow> lc_state \<times> handler_end option"
  where
  "lc_wait_downloadManager E s = lc_wait 60 (dm_pongs E) E s"

text \<open>
  The request for the base game. The replies \<open>bus E\<close> reach the coordinator only
  while the bus delivers; after \<open>exit\<close> the promise of the download stays pending, and
  nothing in the handler keeps the process alive.
\<close>

definition lc_download ::
  "lc_globals \<Rightarrow> lc_env \<Rightarrow> lc_state \<Rightarrow> lc_state \<times> handler_end option" where
  "lc_download g E s =
     (let request = lifecycle_request g (lc_requestId E);
          s1 = s\<lparr>sent := sent s @ [(''downloadManager.downloadUpdateGame'', request)]\<rparr>
      in case lc_downloadUpdateGame (''lifecycleManager.'' @ lc_requestId E)
                (if watching s then bus E else []) of
           Pending \<Rightarrow> (s1, Some Suspended)
         | Resolved downloadResult \<Rightarrow>
             if \<not> loose_eq_literal (get_prop downloadResult ''status'') ''completed'' then
               (if lc_releaseLock_ok E then (exit 3 s1, None)
                else release_then_exit E 2 s1)
             else (s1, None)
         | Rejected error \<Rightarrow> release_then_exit E 2 s1)"

definition lc_wait_configManager :: "lc_env \<Rightarrow> lc_state \<Rightarrow> lc_state \<times> handler_end option"
  where
  "lc_wait_configManager E s = lc_wait 30 (cm_pongs E) E s"

definition lc_config ::
  "lc_globals \<Rightarrow> lc_env \<Rightarrow> lc_state \<Rightarrow> lc_state \<times> handler_end option" where
  "lc_config g E s =
     (case downloadUpdateServerConfigGit [] of
        Pending \<Rightarrow> (s, Some Suspended)
      | Resolved gitUpdateResult \<Rightarrow>
          (case get_prop gitUpdateResult ''message'' of
             JObj message \<Rightarrow>
               if \<not> loose_eq_literal (get_prop message ''status'') ''completed'' then
                 (if lc_releaseLock_ok E then (exit 4 s, None)
                  else release_then_exit E 2 s)
               else (s, None)
           | _ \<Rightarrow> release_then_exit E 2 s)
      | Rejected error \<Rightarrow> release_then_exit E 2 s)"

text \<open>
  The handler of the bus's \<open>start\<close> event: lock, wait for the download manager,
  download the base game, wait for the config manager, fetch the configuration.
\<close>

definition lifecycle_start :: "lc_globals \<Rightarrow> lc_env \<Rightarrow> lc_state \<times> handler_end" where
  "lifecycle_start g E =
     (case and_then (and_then (and_then (and_then
              (lc_acquire E lc_init)
              (lc_wait_downloadManager E))
              (lc_download g E))
              (lc_wait_configManager E))
              (lc_config g E) of
        (s, None) \<Rightarrow> (s, Returned)
      | (s, Some e) \<Rightarrow> (s, e))"

text \<open>
  Example run: both managers answer the pings, the download manager acknowledges the
  request and then reports that the download failed.
\<close>

definition example_globals :: lc_globals where
  "example_globals =
     \<lparr>lc_gameId = ''csgo'', lc_instanceId = ''my-casual-server'',
      lc_serverFilesBaseDir = ''/opt/gsm/base/csgo'', lc_steamCmdDir = ''/opt/gsm/steamcmd'',
      steamcmdFilesForce = False, serverFilesForce = False, steamcmdAnonymous = True,
      steamcmdUsername = JBool False, steamcmdPassword = JBool False,
      steamcmdMultiFactorEnabled = False, steamcmdForceValidate = False\<rparr>"

definition download_fails :: lc_env where
  "download_fails =
     \<lparr>lc_spinLock = Acquired,
      lc_releaseLock_ok = True,
      dm_pongs = [[7]],
      lc_requestId = ''r1'',
      bus = [(''lifecycleManager.r1.ack'',
               [(''subscribeTo'', JStr ''lifecycleManager.r1''), (''requestId'', JStr ''r1'')]),
             (''lifecycleManager.r1.error'',
               [(''error'', JStr ''steamcmd failed''), (''requestId'', JStr ''r1'')])],
      cm_pongs = [[9]]\<rparr>"

definition download_failed_status :: lc_env where
  "download_failed_status =
     download_fails\<lparr>bus :=
       [(''lifecycleManager.r1.ack'',
          [(''subscribeTo'', JStr ''lifecycleManager.r1''), (''requestId'', JStr ''r1'')]),
        (''lifecycleManager.r1.finalStatus'',
          [(''reason'', JStr ''failed''), (''status'', JStr ''failed''),
           (''requestId'', JStr ''r1'')])]\<rparr>"

definition download_completes :: lc_env where
  "download_completes =
     download_fails\<lparr>bus :=
       [(''lifecycleManager.r1.ack'',
          [(''subscribeTo'', JStr ''lifecycleManager.r1''), (''requestId'', JStr ''r1'')]),
        (''lifecycleManager.r1.finalStatus'',
          [(''exitCode'', JNum 0), (''reason'', JStr ''completed''),
           (''status'', JStr ''completed''), (''requestId'', JStr ''r1'')])]\<rparr>"

definition example_env :: "string \<rightharpoonup> string" where
  "example_env =
     [''GAME_ID'' \<mapsto> ''csgo'', ''INSTANCE_ID'' \<mapsto> ''my-casual-server'',
      ''SERVER_FILES_ROOT_DIR'' \<mapsto> ''/opt/gsm'', ''STEAMCMD_LOGIN_ANON'' \<mapsto> ''false'']"

definition example_env_unset :: "string \<rightharpoonup> string" where
  "example_env_unset = example_env(''STEAMCMD_LOGIN_ANON'' := None)"

section \<open>lib/ipc.mjs: sendRequestReply\<close>

text \<open>
  A message on the bus: the channel (\<open>info.replyTo\<close> as text), the sub-channel, and the
  payload, which is the JSON text of the message object. The topic it is published on
  is \<open>`${info.replyTo}.${subchannel}`\<close>.
\<close>

record bus_message =
  msg_channel :: string
  msg_subchannel :: string
  msg_payload :: string

definition topic :: "bus_message \<Rightarrow> string" where
  "topic m = msg_channel m @ ''.'' @ msg_subchannel m"

text \<open>
  \<^verbatim>\<open>
  export async function sendRequestReply(moduleIdent, ipc, subchannel, message, info) {
    message.requestId = info.requestId;
    message.moduleIdent = moduleIdent;
    message.timestamp = Date.now();
    await ipc.publish(`${info.replyTo}.${subchannel}`, JSON.stringify(message));
  }
  \<close>
\<close>

definition sendRequestReply :: "string \<Rightarrow> int \<Rightarrow> string \<Rightarrow> props \<Rightarrow> props \<Rightarrow> bus_message" where
  "sendRequestReply moduleIdent now subchannel message info =
     (let m1 = set_prop message ''requestId'' (get_prop info ''requestId'');
          m2 = set_prop m1 ''moduleIdent'' (JStr moduleIdent);
          m3 = set_prop m2 ''timestamp'' (JNum now)
      in \<lparr>msg_channel = js_toString (get_prop info ''replyTo''),
          msg_subchannel = subchannel,
          msg_payload = (case JSON_stringify (JObj m3) of Some t \<Rightarrow> t | None \<Rightarrow> ''undefined'')\<rparr>)"

section \<open>bin/downloadManager.mjs\<close>

definition supportedGames :: "string list" where
  "supportedGames = [''csgo'']"

text \<open>
  An entry of \<open>runningDownloads\<close>. Every property may be absent: the error and cancel
  paths replace the entry by \<open>{}\<close>, and later assignments add single properties to it.
\<close>

record task_record =
  tr_request :: "props option"
  tr_gameId :: "jsval option"
  tr_downloadId :: "jsval option"
  tr_downloadLocked :: "bool option"
  tr_downloadState :: "jsval option"
  tr_lastLog :: "string list option"
  tr_progressSnapshot :: "jsval option"
  tr_error :: "jsval option"
  tr_sinks :: bool

definition blank_record :: task_record where
  "blank_record =
     \<lparr>tr_request = None, tr_gameId = None, tr_downloadId = None, tr_downloadLocked = None,
      tr_downloadState = None, tr_lastLog = None, tr_progressSnapshot = None,
      tr_error = None, tr_sinks = False\<rparr>"

text \<open>
  The state of the download manager: its table of downloads, the names in the lock
  directory, the messages published so far, and the status of its ping reply.
\<close>

record dm_state =
  runningDownloads :: "string \<rightharpoonup> task_record"
  lockDir :: "string list"
  published :: "bus_message list"
  pingReply :: string

text \<open>
  What the handler meets while it serves one request: the clock, the manifest loader
  (the message of the error when the import fails), whether \<open>spinLock\<close>, \<open>spinClear\<close> and
  \<open>releaseLock\<close> throw (with the message of the error), how
  \<open>steamCmdDownloadSelf\<close> and \<open>steamCmdDownloadAppid\<close> settle, and what the tool pushes
  to the sinks while it runs.
\<close>

record dm_env =
  now :: int
  loadManifest :: "string \<Rightarrow> string + props"
  spinLock_error :: "string option"
  spinClear_error :: "string option"
  releaseLock_error :: "string option"
  downloadSelf :: "unit settle"
  downloadAppid :: "props settle"
  streamed :: "sink_push list"

definition reply :: "dm_env \<Rightarrow> string \<Rightarrow> props \<Rightarrow> props \<Rightarrow> dm_state \<Rightarrow> dm_state" where
  "reply E subchannel message request s =
     s\<lparr>published := published s
          @ [sendRequestReply ''downloadManager'' (now E) subchannel message request]\<rparr>"

text \<open>
  \<open>releaseLock(lockId)\<close> rejects with the error of \<open>checkLockPath\<close> when the lock
  directory does not exist and cannot be created (\<open>Could not create lockfile directory
  at ...\<close>), and with \<open>Unable to release lock at ...\<close> when \<open>lock.unlock\<close> reports an
  error; otherwise the file \<open>lockId\<close> is removed from the lock directory, whoever
  created it.
\<close>

definition releaseLock :: "dm_env \<Rightarrow> string \<Rightarrow> dm_state \<Rightarrow> js_error + dm_state" where
  "releaseLock E lockId s =
     (case releaseLock_error E of
        Some message \<Rightarrow> Inl (ThrownError message)
      | None \<Rightarrow> Inr (s\<lparr>lockDir := removeAll lockId (lockDir s)\<rparr>))"

definition delete_download :: "string \<Rightarrow> dm_state \<Rightarrow> dm_state" where
  "delete_download gameId s = s\<lparr>runningDownloads := (runningDownloads s)(gameId := None)\<rparr>"

definition set_download :: "string \<Rightarrow> task_record \<Rightarrow> dm_state \<Rightarrow> dm_state" where
  "set_download gameId r s = s\<lparr>runningDownloads := (runningDownloads s)(gameId \<mapsto> r)\<rparr>"

text \<open>\<open>runningDownloads[gameId].k = v\<close>: a TypeError when the entry does not exist.\<close>

definition update_download ::
  "string \<Rightarrow> (task_record \<Rightarrow> task_record) \<Rightarrow> dm_state \<Rightarrow> js_error + dm_state" where
  "update_download gameId f s =
     (case runningDownloads s gameId of
        None \<Rightarrow> Inl (TypeError ''Cannot set properties of undefined'')
      | Some r \<Rightarrow> Inr (set_download gameId (f r) s))"

definition gameId_of :: "props \<Rightarrow> string" where
  "gameId_of request = js_toString (get_prop request ''gameId'')"

definition globalLockId :: "props \<Rightarrow> string" where
  "globalLockId request = ''downloadGame-'' @ gameId_of request"

fun error_text :: "js_error \<Rightarrow> string" where
  "error_text (TypeError m) = m"
| "error_text (ThrownError m) = m"

text \<open>\<open>error.message\<close> of a caught value that is neither \<open>null\<close> nor \<open>undefined\<close>.\<close>

fun error_message :: "jsval \<Rightarrow> jsval" where
  "error_message (JErr m) = JStr m"
| "error_message (JObj ps) = get_prop ps ''message''"
| "error_message _ = JUndefined"

text \<open>
  The \<open>catch\<close> block around the steamcmd calls:
  \<^verbatim>\<open>
  } catch (error) {
    if (error != null) {
      ipc.unsubscribe(...);
      sendRequestReply(moduleIdent, ipc, 'error', { error: error.message }, request);
      setPingReply(moduleIdent, ipc, 'error');
      await releaseLock(globalLockId);
      runningDownloads[request.gameId] = {};
      return;
    } else {
      // Some other non-error, ignore it (steamcmd is good at this)
      return;
    }
  }
  \<close>
  The reject sites of \<open>lib/steamcmd.mjs\<close> and \<open>lib/fileDownload.mjs\<close> pass an \<open>Error\<close>, a
  non-empty string or the exit object of the tool, never \<open>null\<close> or \<open>undefined\<close>: the
  \<open>else\<close> branch is part of the handler, but no rejection of the steamcmd calls leads
  into it.
\<close>

definition dug_catch ::
  "dm_env \<Rightarrow> props \<Rightarrow> jsval \<Rightarrow> dm_state \<Rightarrow> dm_state \<times> handler_end option" where
  "dug_catch E request error s =
     (if error \<noteq> JNull \<and> error \<noteq> JUndefined then
        (let s1 = reply E ''error'' [(''error'', error_message error)] request s;
             s2 = s1\<lparr>pingReply := ''error''\<rparr>
         in case releaseLock E (globalLockId request) s2 of
              Inl e \<Rightarrow> (s2, Some (Threw e))
            | Inr s3 \<Rightarrow> (set_download (gameId_of request) blank_record s3, Some Returned))
      else (s, Some Returned))"

text \<open>
  The \<open>data\<close> handlers of the output and progress sinks. The output handler puts the
  text at the head of \<open>lastLog\<close>, cuts the log to 1000 entries and publishes the text;
  the progress handler stores the parsed snapshot and publishes it.
\<close>

definition on_sink :: "dm_env \<Rightarrow> props \<Rightarrow> dm_state \<Rightarrow> sink_push \<Rightarrow> dm_state" where
  "on_sink E request s p =
     (case p of
        OutputPush v \<Rightarrow>
          (let output = (case JSON_stringify v of Some t \<Rightarrow> t | None \<Rightarrow> ''undefined'');
               s1 = (case runningDownloads s (gameId_of request) of
                       Some r \<Rightarrow>
                         set_download (gameId_of request)
                           (r\<lparr>tr_lastLog :=
                                map_option (\<lambda>l. take 1000 (output # l)) (tr_lastLog r)\<rparr>) s
                     | None \<Rightarrow> s)
           in reply E ''output'' [(''line'', JStr output)] request s1)
      | ProgressPush progress \<Rightarrow>
          (let s1 = (case runningDownloads s (gameId_of request) of
                       Some r \<Rightarrow>
                         set_download (gameId_of request)
                           (r\<lparr>tr_progressSnapshot := Some progress,
                              tr_downloadState := Some (JStr ''running'')\<rparr>) s
                     | None \<Rightarrow> s)
           in reply E ''progress'' [(''line'', progress)] request s1)
      | CommandPush c \<Rightarrow> s)"

text \<open>The \<open>case 'steamcmd'\<close> branch, after the \<open>ack\<close>.\<close>

definition dug_steamcmd ::
  "dm_env \<Rightarrow> props \<Rightarrow> props \<Rightarrow> dm_state \<Rightarrow> dm_state \<times> handler_end option" where
  "dug_steamcmd E gameInfo request s =
     (case downloadSelf E of
        Pending \<Rightarrow> (s, Some Suspended)
      | Rejected error \<Rightarrow> dug_catch E request error s
      | Resolved u \<Rightarrow>
          (let s1 = foldl (on_sink E request) s (streamed E) in
           case downloadAppid E of
             Pending \<Rightarrow> (s1, Some Suspended)
           | Rejected error \<Rightarrow> dug_catch E request error s1
           | Resolved result \<Rightarrow>
               (case update_download (gameId_of request)
                       (\<lambda>r. r\<lparr>tr_downloadLocked := Some False,
                               tr_downloadState := Some (get_prop result ''status'')\<rparr>) s1 of
                  Inl e \<Rightarrow> dug_catch E request (JErr (error_text e)) s1
                | Inr s2 \<Rightarrow>
                    (let s3 = reply E ''finalStatus'' result request s2;
                         s4 = s3\<lparr>pingReply := ''ready''\<rparr>
                     in case releaseLock E (globalLockId request) s4 of
                          Inl e \<Rightarrow> dug_catch E request (JErr (error_text e)) s4
                        | Inr s5 \<Rightarrow>
                            (delete_download (gameId_of request) s5, Some Returned)))))"

text \<open>The \<open>default\<close> branch of the switch on \<open>gameInfo.downloadType\<close>.\<close>

definition dug_unsupported ::
  "dm_env \<Rightarrow> props \<Rightarrow> dm_state \<Rightarrow> dm_state \<times> handler_end option" where
  "dug_unsupported E request s =
     (let s1 = reply E ''error'' [(''error'', JErr ''unsupported request'')] request s;
          s2 = s1\<lparr>pingReply := ''error - unsupported request''\<rparr>
      in case releaseLock E (globalLockId request) s2 of
           Inl e \<Rightarrow> (s2, Some (Threw e))
         | Inr s3 \<Rightarrow> (set_download (gameId_of request) blank_record s3, Some Returned))"

definition dug_run ::
  "dm_env \<Rightarrow> props \<Rightarrow> props \<Rightarrow> dm_state \<Rightarrow> dm_state \<times> handler_end option" where
  "dug_run E gameInfo request s =
     (if get_prop gameInfo ''downloadType'' = JStr ''steamcmd''
      then dug_steamcmd E gameInfo request s
      else dug_unsupported E request s)"

text \<open>
  \<open>await spinLock(globalLockId, 30)\<close>: when it throws, the entry is deleted and the
  error is published; when it returns, the lock file has been created.
\<close>

definition dug_spinLock ::
  "dm_env \<Rightarrow> props \<Rightarrow> dm_state \<Rightarrow> dm_state \<times> handler_end option" where
  "dug_spinLock E request s =
     (case spinLock_error E of
        Some message \<Rightarrow>
          (reply E ''error'' [(''error'', JStr message)] request
             (delete_download (gameId_of request) s),
           Some Returned)
      | None \<Rightarrow>
          (s\<lparr>lockDir := (if globalLockId request \<in> set (lockDir s) then lockDir s
                          else lockDir s @ [globalLockId request])\<rparr>,
           None))"

text \<open>\<open>await spinClear(baseMountLockCheckPattern, 30)\<close> and its \<open>catch\<close>.\<close>

definition dug_spinClear ::
  "dm_env \<Rightarrow> props \<Rightarrow> dm_state \<Rightarrow> dm_state \<times> handler_end option" where
  "dug_spinClear E request s =
     (case spinClear_error E of
        Some message \<Rightarrow>
          (let s1 = reply E ''error'' [(''error'', JStr message)] request s;
               s2 = delete_download (gameId_of request) s1
           in case releaseLock E (globalLockId request) s2 of
                Inl e \<Rightarrow> (s2, Some (Threw e))
              | Inr s3 \<Rightarrow> (s3, Some Returned))
      | None \<Rightarrow> (s, None))"

text \<open>
  From \<open>downloadState = 'preparing'\<close> to the \<open>ack\<close>: the multifactor check, the three
  sinks, the ping status, and the acknowledgement with \<open>subscribeTo = request.replyTo\<close>.
\<close>

definition dug_prepare ::
  "dm_env \<Rightarrow> props \<Rightarrow> dm_state \<Rightarrow> dm_state \<times> handler_end option" where
  "dug_prepare E request s =
     (case update_download (gameId_of request)
             (\<lambda>r. r\<lparr>tr_downloadState := Some (JStr ''preparing'')\<rparr>) s of
        Inl e \<Rightarrow> (s, Some (Threw e))
      | Inr s1 \<Rightarrow>
          if truthy (get_prop request ''steamcmdMultiFactorEnabled'') then
            (let s2 = reply E ''error'' [(''error'', JStr ''multifactor auth not supported'')]
                        request s1;
                 s3 = delete_download (gameId_of request) s2
             in case releaseLock E (globalLockId request) s3 of
                  Inl e \<Rightarrow> (s3, Some (Threw e))
                | Inr s4 \<Rightarrow> (s4, Some Returned))
          else
            (case update_download (gameId_of request) (\<lambda>r. r\<lparr>tr_sinks := True\<rparr>) s1 of
               Inl e \<Rightarrow> (s1, Some (Threw e))
             | Inr s2 \<Rightarrow>
                 (reply E ''ack''
                    [(''subscribeTo'', get_prop request ''replyTo''),
                     (''requestId'', get_prop request ''requestId'')]
                    request (s2\<lparr>pingReply := ''downloading''\<rparr>),
                  None)))"

text \<open>The status-tracking object created for an accepted request.\<close>

definition new_record :: "props \<Rightarrow> props \<Rightarrow> task_record" where
  "new_record request gameInfo =
     \<lparr>tr_request = Some request,
      tr_gameId = Some (get_prop request ''gameId''),
      tr_downloadId = Some (get_prop gameInfo ''downloadId''),
      tr_downloadLocked = Some True,
      tr_downloadState = Some (JStr ''checking locks''),
      tr_lastLog = Some [],
      tr_progressSnapshot = Some (JObj []),
      tr_error = Some JNull,
      tr_sinks = False\<rparr>"

text \<open>
  The handler of \<open>downloadManager.downloadUpdateGame\<close>, from the parsed request on.
  Validation, the manifest, the check of \<open>runningDownloads\<close> and the creation of the
  entry come first; no \<open>await\<close> separates the check from the creation.
\<close>

definition dug ::
  "dm_env \<Rightarrow> dm_state \<Rightarrow> props \<Rightarrow> dm_state \<times> handler_end option" where
  "dug E s request =
     (if \<not> truthy (get_prop request ''gameId'') then
        (reply E ''error'' [(''error'', JErr ''gameId required'')] request s, Some Returned)
      else if get_prop request ''gameId'' \<notin> set (map JStr supportedGames) then
        (reply E ''error'' [(''error'', JErr ''gameId unsupported'')] request s, Some Returned)
      else
        (case loadManifest E (gameId_of request) of
           Inl message \<Rightarrow>
             (let s1 = reply E ''error'' [(''error'', JStr message)] request s in
              case releaseLock E (globalLockId request) s1 of
                Inl e \<Rightarrow> (s1, Some (Threw e))
              | Inr s2 \<Rightarrow> (s2, Some Returned))
         | Inr gameInfo \<Rightarrow>
             (case runningDownloads s (gameId_of request) of
                Some entry \<Rightarrow>
                  (case tr_request entry of
                     None \<Rightarrow>
                       (s, Some (Threw (TypeError ''Cannot read properties of undefined'')))
                   | Some inflight \<Rightarrow>
                       (reply E ''nack''
                          [(''alreadyRequested'', JBool True),
                           (''alreadyMounted'', JNull),
                           (''reason'', JStr ''already requested''),
                           (''subscribeTo'', get_prop inflight ''replyTo''),
                           (''requestId'', get_prop inflight ''requestId''),
                           (''request'', JObj inflight)]
                          request s,
                        Some Returned))
              | None \<Rightarrow>
                  and_then
                    (dug_spinLock E request
                       (set_download (gameId_of request) (new_record request gameInfo) s))
                    (\<lambda>s. and_then (dug_spinClear E request s)
                    (\<lambda>s. and_then (dug_prepare E request s)
                    (dug_run E gameInfo request))))))"

definition downloadUpdateGame :: "dm_env \<Rightarrow> dm_state \<Rightarrow> props \<Rightarrow> dm_state \<times> handler_end" where
  "downloadUpdateGame E s request =
     (case dug E s request of (s', None) \<Rightarrow> (s', Returned) | (s', Some e) \<Rightarrow> (s', e))"

text \<open>The messages a run of the handler adds to the bus.\<close>

definition new_messages :: "dm_env \<Rightarrow> dm_state \<Rightarrow> props \<Rightarrow> bus_message list" where
  "new_messages E s request =
     drop (length (published s)) (published (fst (downloadUpdateGame E s request)))"

definition replyTo_of :: "props \<Rightarrow> string" where
  "replyTo_of request = js_toString (get_prop request ''replyTo'')"

definition is_ack :: "props \<Rightarrow> bus_message \<Rightarrow> bool" where
  "is_ack request m = (msg_channel m = replyTo_of request \<and> msg_subchannel m = ''ack'')"

definition is_terminal :: "props \<Rightarrow> bus_message \<Rightarrow> bool" where
  "is_terminal request m =
     (msg_channel m = replyTo_of request
      \<and> (msg_subchannel m = ''finalStatus'' \<or> msg_subchannel m = ''error''))"

text \<open>The terminal messages published on the request's channel after its \<open>ack\<close>.\<close>

definition terminals_after_ack :: "props \<Rightarrow> bus_message list \<Rightarrow> bus_message list" where
  "terminals_after_ack request ms =
     filter (is_terminal request) (tl (dropWhile (\<lambda>m. \<not> is_ack request m) ms))"

definition acked :: "props \<Rightarrow> bus_message list \<Rightarrow> bool" where
  "acked request ms = list_ex (is_ack request) ms"

text \<open>
  An entry is a task in flight when it still carries the request it was created for.
  The handler only creates such entries under keys that passed its validation.
\<close>

definition tasks_validated :: "dm_env \<Rightarrow> dm_state \<Rightarrow> bool" where
  "tasks_validated E s =
     (\<forall>gameId entry inflight.
        runningDownloads s gameId = Some entry \<and> tr_request entry = Some inflight \<longrightarrow>
          gameId \<in> set supportedGames
          \<and> (\<exists>gameInfo. loadManifest E gameId = Inr gameInfo)
          \<and> gameId_of inflight = gameId)"

definition init_state :: dm_state where
  "init_state =
     \<lparr>runningDownloads = Map.empty, lockDir = [''downloadManager''], published = [],
      pingReply = ''ready''\<rparr>"

text \<open>Example inputs: the manifest of \<open>csgo\<close>, requests, and what the handler meets.\<close>

definition csgo_manifest :: props where
  "csgo_manifest =
     [(''name'', JStr ''csgo''),
      (''displayName'', JStr ''Counter-Strike: Global Offensive''),
      (''downloadType'', JStr ''steamcmd''),
      (''downloadId'', JStr ''740''),
      (''binDir'', JStr ''./''),
      (''binName'', JStr ''srcds_linux'')]"

definition manifests :: "string \<Rightarrow> string + props" where
  "manifests gameId =
     (if gameId = ''csgo'' then Inr csgo_manifest else Inl ''Cannot find module'')"

definition no_manifests :: "string \<Rightarrow> string + props" where
  "no_manifests gameId = Inl ''Cannot find module''"

definition csgo_request :: "string \<Rightarrow> props" where
  "csgo_request requestId =
     [(''requestId'', JStr requestId),
      (''replyTo'', JStr (''cli.'' @ requestId)),
      (''gameId'', JStr ''csgo''),
      (''validate'', JBool False),
      (''steamCmdForce'', JBool False),
      (''steamCmdDir'', JStr ''/opt/gsm/steamcmd''),
      (''serverFilesForce'', JBool False),
      (''downloadDir'', JStr ''/opt/gsm/base/csgo''),
      (''anonymous'', JBool True),
      (''username'', JStr []),
      (''password'', JStr []),
      (''steamcmdMultiFactorEnabled'', JBool False)]"

definition xyzzy_request :: props where
  "xyzzy_request =
     [(''requestId'', JStr ''r9''), (''replyTo'', JStr ''cli.r9''), (''gameId'', JStr ''xyzzy'')]"

definition completed_result :: props where
  "completed_result =
     [(''exitCode'', JNum 0), (''signal'', JNum 0), (''reason'', JStr ''completed''),
      (''status'', JStr ''completed''), (''error'', JBool False)]"

definition download_ok :: dm_env where
  "download_ok =
     \<lparr>now = 1000,
      loadManifest = manifests,
      spinLock_error = None,
      spinClear_error = None,
      releaseLock_error = None,
      downloadSelf = Resolved (),
      downloadAppid = Resolved completed_result,
      streamed = onData ''t'' hex_digit_line\<rparr>"

text \<open>
  The tool prints nothing and exits with code 8: \<open>runSteamCmd\<close> rejects with the exit
  object, and so does \<open>steamCmdDownloadAppid\<close>.
\<close>

definition tool_fails :: dm_env where
  "tool_fails =
     download_ok\<lparr>downloadAppid := final_settle (Exited False 8 (JNum 0)), streamed := []\<rparr>"

text \<open>The table and the bus after the request \<open>r1\<close> for \<open>csgo\<close> has failed in this way.\<close>

definition after_failed_download :: dm_state where
  "after_failed_download = fst (downloadUpdateGame tool_fails init_state (csgo_request ''r1''))"

text \<open>
  The download succeeds, but the lock directory has gone while the tool ran and cannot
  be created again: \<open>checkLockPath\<close> throws in \<open>releaseLock\<close>, which rejects with that
  error.
\<close>

definition release_fails :: dm_env where
  "release_fails =
     download_ok\<lparr>releaseLock_error := Some ''Could not create lockfile directory at /tmp/gsm'',
                 streamed := []\<rparr>"

definition manifest_missing :: dm_env where
  "manifest_missing = download_ok\<lparr>loadManifest := no_manifests\<rparr>"

definition stale_game_lock :: dm_state where
  "stale_game_lock = init_state\<lparr>lockDir := [''downloadManager'', ''downloadGame-csgo'']\<rparr>"

definition csgo_in_flight :: dm_state where
  "csgo_in_flight =
     init_state\<lparr>runningDownloads :=
                   [''csgo'' \<mapsto> new_record (csgo_request ''r1'') csgo_manifest],
                 lockDir := [''downloadManager'', ''downloadGame-csgo'']\<rparr>"

text \<open>
  Every in-flight entry of the second state is an entry of the first one, with the
  same request: what the handler does to the table once the entry is created.
\<close>

definition inflight_from :: "dm_state \<Rightarrow> dm_state \<Rightarrow> bool" where
  "inflight_from s s' =
     (\<forall>k e r. runningDownloads s' k = Some e \<and> tr_request e = Some r \<longrightarrow>
        (\<exists>e0. runningDownloads s k = Some e0 \<and> tr_request e0 = Some r))"

text \<open>
  The request goes through validation, finds no entry under its key, gets both locks
  and does not ask for multifactor authentication: the path that ends in the \<open>ack\<close>.
\<close>

definition reaches_ack :: "dm_env \<Rightarrow> dm_state \<Rightarrow> props \<Rightarrow> bool" where
  "reaches_ack E s request =
     (truthy (get_prop request ''gameId'')
      \<and> get_prop request ''gameId'' \<in> set (map JStr supportedGames)
      \<and> (case loadManifest E (gameId_of request) of Inl message \<Rightarrow> False | Inr gameInfo \<Rightarrow> True)
      \<and> runningDownloads s (gameId_of request) = None
      \<and> spinLock_error E = None
      \<and> spinClear_error E = None
      \<and> \<not> truthy (get_prop request ''steamcmdMultiFactorEnabled''))"

text \<open>
  The value the steamcmd calls reject with, if they do, and whether they settle at all.
\<close>

definition rejection_of :: "dm_env \<Rightarrow> jsval option" where
  "rejection_of E =
     (case downloadSelf E of
        Rejected error \<Rightarrow> Some error
      | Pending \<Rightarrow> None
      | Resolved u \<Rightarrow>
          (case downloadAppid E of Rejected error \<Rightarrow> Some error | _ \<Rightarrow> None))"

definition work_settles :: "dm_env \<Rightarrow> bool" where
  "work_settles E =
     (case downloadSelf E of
        Pending \<Rightarrow> False
      | Rejected error \<Rightarrow> True
      | Resolved u \<Rightarrow> (case downloadAppid E of Pending \<Rightarrow> False | _ \<Rightarrow> True))"

definition uses_steamcmd :: "dm_env \<Rightarrow> props \<Rightarrow> bool" where
  "uses_steamcmd E request =
     (case loadManifest E (gameId_of request) of
        Inl message \<Rightarrow> False
      | Inr gameInfo \<Rightarrow> get_prop gameInfo ''downloadType'' = JStr ''steamcmd'')"

text \<open>The payload of the \<open>nack\<close> sent to \<open>request\<close> while \<open>inflight\<close> is being served.\<close>

definition nack_object :: "dm_env \<Rightarrow> props \<Rightarrow> props \<Rightarrow> jsval" where
  "nack_object E inflight request =
     JObj [(''alreadyRequested'', JBool True),
           (''alreadyMounted'', JNull),
           (''reason'', JStr ''already requested''),
           (''subscribeTo'', get_prop inflight ''replyTo''),
           (''requestId'', get_prop request ''requestId''),
           (''request'', JObj inflight),
           (''moduleIdent'', JStr ''downloadManager''),
           (''timestamp'', JNum (now E))]"

text \<open>
  The listener that \<open>cancelDownload\<close> puts on the command sink, when the worker
  acknowledges the cancel: it answers the party that asked for the cancel with a
  \<open>finalStatus\<close> and replaces the entry by \<open>{}\<close>. \<open>rmSync_error\<close> is the error of
  the removal of the download directory, when a cleanup is asked for and fails.
\<close>

definition cancelDownload_ackCanceled ::
  "dm_env \<Rightarrow> jsval option \<Rightarrow> props \<Rightarrow> dm_state \<Rightarrow> dm_state" where
  "cancelDownload_ackCanceled E rmSync_error cancelRequest s =
     (let response0 = [(''status'', JStr ''canceled''), (''error'', JBool False)];
          response =
            (if truthy (get_prop cancelRequest ''cleanup'') then
               (case rmSync_error of
                  None \<Rightarrow> set_prop response0 ''cleanup'' (JStr ''successful'')
                | Some error \<Rightarrow>
                    set_prop (set_prop response0 ''error'' error) ''cleanup'' (JStr ''failed''))
             else response0);
          s1 = reply E ''finalStatus'' response
                 [(''requestId'', get_prop cancelRequest ''requestId''),
                  (''replyTo'', get_prop cancelRequest ''replyTo'')] s
      in set_download (js_toString (get_prop cancelRequest ''gameIdToCancel'')) blank_record s1)"

text \<open>The JSON text of the \<open>nack\<close> that answers request \<open>r2\<close> while \<open>r1\<close> is in flight.\<close>

definition nack_example_text :: string where
  "nack_example_text =
     ''{\"alreadyRequested\":true,\"alreadyMounted\":null,\"reason\":\"already requested\",''
     @ ''\"subscribeTo\":\"cli.r1\",\"requestId\":\"r2\",''
     @ ''\"request\":{\"requestId\":\"r1\",\"replyTo\":\"cli.r1\",\"gameId\":\"csgo\",''
     @ ''\"validate\":false,\"steamCmdForce\":false,\"steamCmdDir\":\"/opt/gsm/steamcmd\",''
     @ ''\"serverFilesForce\":false,\"downloadDir\":\"/opt/gsm/base/csgo\",\"anonymous\":true,''
     @ ''\"username\":\"\",\"password\":\"\",\"steamcmdMultiFactorEnabled\":false},''
     @ ''\"moduleIdent\":\"downloadManager\",\"timestamp\":1000}''"

section \<open>Properties of parseBool\<close>

lemma parseBool_string_total: "\<exists>b. parseBool (JStr s) = Inr b"
  by (auto simp add: parseBool_def Let_def)

lemma parseBool_env_total: "\<exists>b. parseBool (env_get env name) = Inr b"
  by (cases "env name") (auto simp add: env_get_def parseBool_def Let_def)

text \<open>
  Claim C9. \<open>parseBool\<close> returns \<open>false\<close> exactly when its argument is absent or falsy, or
  is a string whose lowercased and trimmed form is \<open>false\<close>, \<open>no\<close>, \<open>0\<close> or empty; every
  other non-empty string (such as \<open>banana\<close>) gives \<open>true\<close>.
\<close>

theorem parseBool_false_iff:
  "(parseBool v = Inr False \<longleftrightarrow>
      (\<not> truthy v \<or>
       (\<exists>s. v = JStr s \<and> trim (toLowerCase s) \<in> {''false'', ''no'', ''0'', ''''})))
   \<and> (\<forall>s. s \<noteq> [] \<and> trim (toLowerCase s) \<notin> {''false'', ''no'', ''0'', ''''}
          \<longrightarrow> parseBool (JStr s) = Inr True)"
proof (intro conjI allI impI)
  show "parseBool v = Inr False \<longleftrightarrow>
      (\<not> truthy v \<or>
       (\<exists>s. v = JStr s \<and> trim (toLowerCase s) \<in> {''false'', ''no'', ''0'', ''''}))"
    by (cases v) (auto simp: parseBool_def Let_def)
next
  fix s :: string
  assume "s \<noteq> [] \<and> trim (toLowerCase s) \<notin> {''false'', ''no'', ''0'', ''''}"
  then show "parseBool (JStr s) = Inr True"
    by (auto simp: parseBool_def Let_def)
qed

lemma trim_lower_banana: "trim (toLowerCase ''banana'') = ''banana''"
  by code_simp

text \<open>
  The two string operations on inputs with capitals, with white space at both ends,
  with a no-break space (code unit 160) and with capitals of the upper half of Latin-1.
\<close>

lemma toLowerCase_examples:
  "toLowerCase ''FaLsE'' = ''false''"
  "toLowerCase ''No 0 [Z]'' = ''no 0 [z]''"
  "toLowerCase [CHR 0xC9, CHR 0xD7, CHR 0xDE, CHR 0xDF] = [CHR 0xE9, CHR 0xD7, CHR 0xFE, CHR 0xDF]"
  by code_simp+

lemma trim_examples:
  "trim ''  a b  '' = ''a b''"
  "trim ([CHR 0x09, CHR 0x0A, CHR 0x0B, CHR 0x0C, CHR 0x0D, CHR 0x20, CHR 0xA0] @ ''x'') = ''x''"
  "trim (''x'' @ [CHR 0xA0, CHR 0x0A]) = ''x''"
  "trim [CHR 0x85, CHR 0x20] = [CHR 0x85]"
  "trim ''   '' = []"
  by code_simp+

lemma trim_lower_nbsp_false: "trim (toLowerCase (CHR 0xA0 # ''False '')) = ''false''"
  by code_simp

lemma trim_lower_no: "trim (toLowerCase '' NO'') = ''no''"
  by code_simp

lemma trim_lower_spaces: "trim (toLowerCase ''   '') = []"
  by code_simp

lemma trim_lower_nbsp_banana:
  "trim (toLowerCase (CHR 0xA0 # ''Banana'')) = ''banana''"
  by code_simp

lemma dropWhile_all: "list_all P xs \<Longrightarrow> dropWhile P (xs @ ys) = dropWhile P ys"
  by (induction xs) auto

lemma trim_strips:
  assumes "list_all is_ws a" "list_all is_ws b"
    and "m \<noteq> []" "\<not> is_ws (hd m)" "\<not> is_ws (last m)"
  shows "trim (a @ m @ b) = m"
proof -
  from assms(3,4) have 1: "dropWhile is_ws (m @ b) = m @ b"
    by (cases m) auto
  from assms(3,5) have 2: "dropWhile is_ws (rev m) = rev m"
    by (cases "rev m") (auto simp: last_rev [symmetric] hd_rev)
  have "dropWhile is_ws (a @ m @ b) = m @ b"
    using assms(1) 1 by (simp add: dropWhile_all)
  moreover have "dropWhile is_ws (rev b @ rev m) = rev m"
    using assms(2) 2 by (simp add: dropWhile_all list_all_iff)
  ultimately show ?thesis by (simp add: trim_def)
qed

lemma trim_all_ws:
  assumes "list_all is_ws a"
  shows "trim a = []"
proof -
  from assms have "dropWhile is_ws a = []"
    by (induction a) auto
  then show ?thesis
    unfolding trim_def by (simp only: rev.simps dropWhile.simps)
qed

lemma lower_char_ws: "is_ws c \<Longrightarrow> lower_char c = c"
  by (auto simp: is_ws_def lower_char_def Let_def)

lemma is_ws_lower_char: "is_ws c \<Longrightarrow> is_ws (lower_char c)"
  by (simp add: lower_char_ws)

lemma toLowerCase_ws: "list_all is_ws a \<Longrightarrow> toLowerCase a = a"
  by (induction a) (auto simp: toLowerCase_def lower_char_ws)

lemma lower_false: "toLowerCase ''FALSE'' = ''false''" "toLowerCase ''fAlSe'' = ''false''"
  by code_simp+

lemma not_ws_letters: "\<not> is_ws CHR ''f''" "\<not> is_ws CHR ''e''"
  by code_simp+

text \<open>
  Any white space around a word of the switch is trimmed away: here around \<open>FALSE\<close>.
\<close>

lemma parseBool_padded_false:
  assumes "list_all is_ws a" "list_all is_ws b"
  shows "parseBool (JStr (a @ ''FALSE'' @ b)) = Inr False"
proof -
  have "toLowerCase (a @ ''FALSE'' @ b) = a @ ''false'' @ b"
    using assms toLowerCase_ws [of a] toLowerCase_ws [of b] lower_false(1)
    by (simp add: toLowerCase_def)
  moreover have "trim (a @ ''false'' @ b) = ''false''"
    by (rule trim_strips [OF assms]) (simp_all add: not_ws_letters)
  ultimately show ?thesis
    by (simp add: parseBool_def Let_def)
qed

theorem parseBool_false_iff_witness:
  "parseBool (JStr ''banana'') = Inr True
   \<and> (parseBool (JStr ''banana'') = Inr False) = False
   \<and> parseBool JUndefined = Inr False
   \<and> parseBool (JStr (CHR 0xA0 # ''False '')) = Inr False
   \<and> parseBool (JStr '' NO'') = Inr False
   \<and> parseBool (JStr ''   '') = Inr False
   \<and> parseBool (JStr (CHR 0xA0 # ''Banana'')) = Inr True"
proof -
  have ne: "''banana'' \<noteq> []
      \<and> trim (toLowerCase ''banana'') \<notin> {''false'', ''no'', ''0'', ''''}"
    by (simp add: trim_lower_banana)
  have t: "parseBool (JStr ''banana'') = Inr True"
    using parseBool_false_iff [of "JStr ''banana''"] ne by blast
  have u: "parseBool JUndefined = Inr False"
    using parseBool_false_iff [of JUndefined] by simp
  have a: "parseBool (JStr (CHR 0xA0 # ''False '')) = Inr False"
    using parseBool_false_iff [of "JStr (CHR 0xA0 # ''False '')"]
    by (simp add: trim_lower_nbsp_false)
  have b: "parseBool (JStr '' NO'') = Inr False"
    using parseBool_false_iff [of "JStr '' NO''"] by (simp add: trim_lower_no)
  have c: "parseBool (JStr ''   '') = Inr False"
    using parseBool_false_iff [of "JStr ''   ''"] by (simp add: trim_lower_spaces)
  have ne2: "CHR 0xA0 # ''Banana'' \<noteq> []
      \<and> trim (toLowerCase (CHR 0xA0 # ''Banana'')) \<notin> {''false'', ''no'', ''0'', ''''}"
    by (simp add: trim_lower_nbsp_banana)
  have d: "parseBool (JStr (CHR 0xA0 # ''Banana'')) = Inr True"
    using parseBool_false_iff [of "JStr (CHR 0xA0 # ''Banana'')"] ne2 by blast
  from t u a b c d show ?thesis by simp
qed
section \<open>Properties of runSteamCmd\<close>

lemma runSteamCmd_respawn_step:
  assumes "has_steamCmdDir options" "respawns (runs n)"
  shows "runSteamCmd options runs n spawned
         = runSteamCmd options runs (Suc n) (spawned @ [argv_of options])"
  using assms
  by (subst runSteamCmd.simps)
     (auto simp: has_steamCmdDir_def argv_of_def Let_def split: option.splits child_end.splits)

lemma runSteamCmd_final_step:
  assumes "has_steamCmdDir options" "\<not> respawns (runs n)"
  shows "runSteamCmd options runs n spawned
         = Some (final_settle (runs n),
                 if spawns_child (runs n) then spawned @ [argv_of options] else spawned)"
  using assms
  by (subst runSteamCmd.simps)
     (auto simp: has_steamCmdDir_def argv_of_def Let_def split: option.splits child_end.splits)

lemma runSteamCmd_after_respawns:
  assumes "has_steamCmdDir options"
  shows "(\<forall>i<k. respawns (runs (n + i))) \<Longrightarrow>
         runSteamCmd options runs n spawned
         = runSteamCmd options runs (n + k) (spawned @ replicate k (argv_of options))"
proof (induction k arbitrary: n spawned)
  case 0
  then show ?case by simp
next
  case (Suc k)
  have r0: "respawns (runs n)" using Suc.prems [rule_format, of 0] by simp
  have rest: "\<forall>i<k. respawns (runs (Suc n + i))"
    using Suc.prems by (metis Suc_less_eq add_Suc_right add_Suc)
  have "runSteamCmd options runs n spawned
        = runSteamCmd options runs (Suc n) (spawned @ [argv_of options])"
    using assms r0 by (rule runSteamCmd_respawn_step)
  also have "\<dots> = runSteamCmd options runs (Suc n + k)
                     ((spawned @ [argv_of options]) @ replicate k (argv_of options))"
    by (rule Suc.IH [OF rest])
  finally show ?case by (simp add: replicate_app_Cons_same)
qed

lemma runSteamCmd_settles_only_without_respawn:
  assumes "runSteamCmd options runs n spawned = Some y"
  shows "has_steamCmdDir options \<longrightarrow> (\<exists>i. \<not> respawns (runs i))"
proof (induction rule: runSteamCmd.raw_induct)
  case (1 rec options runs n spawned y)
  show ?case
  proof (intro impI)
    assume d: "has_steamCmdDir options"
    show "\<exists>i. \<not> respawns (runs i)"
    proof (cases "respawns (runs n)")
      case False
      then show ?thesis by blast
    next
      case True
      then obtain sg where e: "runs n = Exited False 42 sg"
        by (cases "runs n") auto
      from 1(2) d e
      have r: "rec options runs (Suc n) (spawned @ [argv_of options]) = Some y"
        by (auto simp: has_steamCmdDir_def argv_of_def Let_def split: option.splits)
      from 1(1) [OF r] d show ?thesis by blast
    qed
  qed
qed (rule assms)

lemma runSteamCmd_all_respawn_None:
  assumes "has_steamCmdDir options" "\<forall>i. respawns (runs i)"
  shows "runSteamCmd options runs n spawned = None"
proof (cases "runSteamCmd options runs n spawned")
  case None
  then show ?thesis .
next
  case (Some y)
  from runSteamCmd_settles_only_without_respawn [OF Some] assms show ?thesis by blast
qed

lemma has_steamCmdDir_example: "has_steamCmdDir example_options"
  by (simp add: has_steamCmdDir_def example_options_def)

lemma argv_of_example:
  "argv_of example_options =
     [''+force_install_dir'', ''/opt/gsm/base/csgo'', ''+login'', ''anonymous'',
      ''+app_update'', ''740'', ''+quit'']"
  by (simp add: argv_of_def example_options_def steamcmdCommandLineNormalized_def)

text \<open>
  Claim C4, as the code has it. An exit with code 42 and no cancel in progress re-spawns
  the tool with the same argument vector. Nothing caps the number of re-spawns: when
  the first \<open>k\<close> spawns all end by a plain exit 42 and spawn \<open>k\<close> ends otherwise, the
  promise settles with the outcome of spawn \<open>k\<close> after \<open>k\<close> re-spawns, whatever \<open>k\<close>
  is; when every spawn ends by a plain exit 42 the promise never settles.
\<close>

theorem runSteamCmd_respawns_uncapped:
  assumes "has_steamCmdDir options"
  shows "(respawns (runs n) \<longrightarrow>
            runSteamCmd options runs n spawned
            = runSteamCmd options runs (Suc n) (spawned @ [argv_of options]))
       \<and> ((\<forall>i<k. respawns (runs i)) \<and> \<not> respawns (runs k) \<longrightarrow>
            runSteamCmd options runs 0 []
            = Some (final_settle (runs k),
                    replicate (if spawns_child (runs k) then Suc k else k) (argv_of options)))
       \<and> ((\<forall>i. respawns (runs i)) \<longrightarrow> runSteamCmd options runs 0 [] = None)"
proof (intro conjI impI)
  assume "respawns (runs n)"
  with assms show "runSteamCmd options runs n spawned
      = runSteamCmd options runs (Suc n) (spawned @ [argv_of options])"
    by (rule runSteamCmd_respawn_step)
next
  assume a: "(\<forall>i<k. respawns (runs i)) \<and> \<not> respawns (runs k)"
  then have "\<forall>i<k. respawns (runs (0 + i))" by simp
  from runSteamCmd_after_respawns [OF assms this, of "[]"]
  have "runSteamCmd options runs 0 []
        = runSteamCmd options runs k (replicate k (argv_of options))"
    by simp
  also have "\<dots> = Some (final_settle (runs k),
        if spawns_child (runs k)
        then replicate k (argv_of options) @ [argv_of options]
        else replicate k (argv_of options))"
    using assms a by (simp add: runSteamCmd_final_step)
  finally show "runSteamCmd options runs 0 []
      = Some (final_settle (runs k),
              replicate (if spawns_child (runs k) then Suc k else k) (argv_of options))"
    by (simp add: replicate_append_same)
next
  assume "\<forall>i. respawns (runs i)"
  with assms show "runSteamCmd options runs 0 [] = None"
    by (rule runSteamCmd_all_respawn_None)
qed

theorem runSteamCmd_respawns_uncapped_witness:
  "has_steamCmdDir example_options
   \<and> list_all (\<lambda>i. respawns (six_times_42_then_0 i)) [0, 1, 2, 3, 4, 5]
   \<and> \<not> respawns (six_times_42_then_0 6)
   \<and> runSteamCmd example_options six_times_42_then_0 0 []
       = Some (Resolved [(''exitCode'', JNum 0), (''signal'', JNum 0),
                         (''reason'', JStr ''completed''), (''status'', JStr ''completed''),
                         (''error'', JBool False)],
               replicate 7 (argv_of example_options))
   \<and> (\<forall>i. respawns (always_42 i))
   \<and> runSteamCmd example_options always_42 0 [] = None"
proof -
  have a: "(\<forall>i<6. respawns (six_times_42_then_0 i)) \<and> \<not> respawns (six_times_42_then_0 6)"
    by (simp add: six_times_42_then_0_def)
  have b: "\<forall>i. respawns (always_42 i)"
    by (simp add: always_42_def)
  have f: "final_settle (six_times_42_then_0 6)
           = Resolved [(''exitCode'', JNum 0), (''signal'', JNum 0),
                       (''reason'', JStr ''completed''), (''status'', JStr ''completed''),
                       (''error'', JBool False)]"
    by (simp add: six_times_42_then_0_def exit_object_def)
  have s: "spawns_child (six_times_42_then_0 6)"
    by (simp add: six_times_42_then_0_def)
  from runSteamCmd_respawns_uncapped [OF has_steamCmdDir_example,
        of six_times_42_then_0 0 "[]" 6, THEN conjunct2, THEN conjunct1] a f s
  have c: "runSteamCmd example_options six_times_42_then_0 0 []
       = Some (Resolved [(''exitCode'', JNum 0), (''signal'', JNum 0),
                         (''reason'', JStr ''completed''), (''status'', JStr ''completed''),
                         (''error'', JBool False)],
               replicate 7 (argv_of example_options))"
    by simp
  from runSteamCmd_respawns_uncapped [OF has_steamCmdDir_example, of always_42 0 "[]" 0,
        THEN conjunct2, THEN conjunct2] b
  have d: "runSteamCmd example_options always_42 0 [] = None"
    by blast
  have e: "list_all (\<lambda>i. respawns (six_times_42_then_0 i)) [0, 1, 2, 3, 4, 5]"
    by (simp add: six_times_42_then_0_def)
  from has_steamCmdDir_example a b c d e show ?thesis by blast
qed

text \<open>
  Claim C4, as stated, fails: with a tool that exits with code 42 on every spawn the
  recursion never returns, and six exits 42 in a row are followed by a seventh spawn.
\<close>

theorem runSteamCmd_no_cap_counterexample:
  "runSteamCmd example_options always_42 0 [] = None
   \<and> map_option (length \<circ> snd) (runSteamCmd example_options six_times_42_then_0 0 []) = Some 7"
proof -
  have n: "runSteamCmd example_options always_42 0 [] = None"
    by (rule runSteamCmd_all_respawn_None [OF has_steamCmdDir_example])
       (simp add: always_42_def)
  have "\<forall>i<6. respawns (six_times_42_then_0 (0 + i))"
    by (simp add: six_times_42_then_0_def)
  from runSteamCmd_after_respawns [OF has_steamCmdDir_example this, of "[]"]
  have "runSteamCmd example_options six_times_42_then_0 0 []
        = runSteamCmd example_options six_times_42_then_0 6
            (replicate 6 (argv_of example_options))"
    by simp
  also have "\<dots> = Some (final_settle (six_times_42_then_0 6),
        replicate 6 (argv_of example_options) @ [argv_of example_options])"
    by (simp add: runSteamCmd_final_step [OF has_steamCmdDir_example]
          six_times_42_then_0_def)
  finally have "map_option (length \<circ> snd)
      (runSteamCmd example_options six_times_42_then_0 0 []) = Some 7"
    by simp
  with n show ?thesis by blast
qed

section \<open>Properties of the progress patterns\<close>

lemma appid_regex_hex_digit_line:
  "regex_match appidDownloadStateRegex hex_digit_line
   = Some [''0x61'', ''downloading'', ''45.65'', ''123'', ''456'']"
  by code_simp

lemma spec_regex_hex_digit_line:
  "regex_match spec_gameDownloadRegex hex_digit_line
   = Some [''0x61'', ''downloading'', ''45.65'', ''123'', ''456'']"
  by code_simp

lemma appid_regex_hex_letter_line:
  "regex_match appidDownloadStateRegex hex_letter_line = None"
  by code_simp

lemma spec_regex_hex_letter_line:
  "regex_match spec_gameDownloadRegex hex_letter_line
   = Some [''0x6a'', ''downloading'', ''45.65'', ''123'', ''456'']"
  by code_simp

lemma self_regex_hex_letter_line:
  "regex_match steamCmdDownloadStateRegex hex_letter_line = None"
  by code_simp

text \<open>
  Claim C5 at a line whose state is \<open>0x6a\<close>. The line is not empty and matches the
  pattern of the claim, with state \<open>0x6a\<close> captured; the handler pushes the line to the
  output sink and pushes no progress snapshot at all, because the source pattern
  admits only decimal digits after the \<open>x\<close>.
\<close>

theorem onData_hex_letter_state_no_progress:
  "hex_letter_line \<noteq> []
   \<and> regex_match spec_gameDownloadRegex hex_letter_line
       = Some [''0x6a'', ''downloading'', ''45.65'', ''123'', ''456'']
   \<and> onData_line ''2024-01-01T00:00:00.000Z'' hex_letter_line
       = [OutputPush (JObj [(''timestamp'', JStr ''2024-01-01T00:00:00.000Z''),
                            (''line'', JStr hex_letter_line)])]
   \<and> \<not> list_ex is_appid_progress (onData_line ''2024-01-01T00:00:00.000Z'' hex_letter_line)"
proof -
  have ne: "hex_letter_line \<noteq> []"
    by (simp add: hex_letter_line_def)
  have od: "onData_line ''2024-01-01T00:00:00.000Z'' hex_letter_line
       = [OutputPush (JObj [(''timestamp'', JStr ''2024-01-01T00:00:00.000Z''),
                            (''line'', JStr hex_letter_line)])]"
    using ne
    by (simp add: onData_line_def appid_regex_hex_letter_line self_regex_hex_letter_line)
  show ?thesis
    using ne od spec_regex_hex_letter_line by simp
qed

section \<open>Properties of isLocked\<close>

text \<open>The loop answers with the status of the first listed name that matches.\<close>

lemma isLocked_loop_first_match:
  "isLocked_loop test chk locks =
     (case find test locks of
        Some l \<Rightarrow> chk l
      | None \<Rightarrow> if test ''undefined'' then chk ''undefined'' else Inr False)"
  by (induction locks) simp_all

lemma baseMount_regex_alpha: "regex_test baseMount_csgo_regex ''baseMount-csgo-alpha''"
  by code_simp

lemma baseMount_regex_beta: "regex_test baseMount_csgo_regex ''baseMount-csgo-beta''"
  by code_simp

text \<open>
  Claim C3 at the example directory, asked with a staleness threshold of 60000 ms.
  Both lock files match the pattern and the second one is held, yet \<open>isLocked\<close>
  answers \<open>false\<close>: the loop returns the status of the first match and never looks
  at the second.
\<close>

theorem isLocked_misses_held_lock:
  "listLocks two_mounts = Inr [''baseMount-csgo-alpha'', ''baseMount-csgo-beta'']
   \<and> RegExp two_mounts ''^baseMount-csgo-.*$'' = Inr (regex_test baseMount_csgo_regex)
   \<and> regex_test baseMount_csgo_regex ''baseMount-csgo-beta''
   \<and> checkSync two_mounts ''baseMount-csgo-beta'' (JNum 60000) = Inr True
   \<and> isLocked two_mounts ''^baseMount-csgo-.*$'' (JNum 60000) = Inr False"
proof -
  have "isLocked two_mounts ''^baseMount-csgo-.*$'' (JNum 60000) = Inr False"
    by (simp add: isLocked_def two_mounts_def example_RegExp_def example_checkSync_def
          baseMount_regex_alpha)
  then show ?thesis
    by (simp add: two_mounts_def example_RegExp_def example_checkSync_def
          baseMount_regex_beta)
qed

section \<open>Properties of the lifecycle coordinator\<close>

lemma parseBool_or_env_True: "parseBool_or (env_get env name) True = Inr True"
proof -
  obtain b where "parseBool (env_get env name) = Inr b"
    using parseBool_env_total by blast
  then show ?thesis
    by (cases b) (simp_all add: parseBool_or_def js_or_def)
qed

lemma parseBool_or_env_total: "\<exists>b. parseBool_or (env_get env name) dflt = Inr b"
proof -
  obtain b where "parseBool (env_get env name) = Inr b"
    using parseBool_env_total by blast
  then show ?thesis
    by (auto simp add: parseBool_or_def js_or_def)
qed

lemma lifecycle_globals_anonymous:
  assumes "lifecycle_globals path_resolve env = Inr g"
  shows "steamcmdAnonymous g"
proof -
  obtain b1 where b1: "parseBool_or (env_get env ''STEAMCMD_FILES_FORCE'') False = Inr b1"
    using parseBool_or_env_total by blast
  obtain b2 where b2: "parseBool_or (env_get env ''SERVER_FILES_FORCE'') False = Inr b2"
    using parseBool_or_env_total by blast
  obtain b4 where b4: "parseBool_or (env_get env ''STEAMCMD_TWOFACTOR_ENABLED'') False = Inr b4"
    using parseBool_or_env_total by blast
  obtain b5 where
    b5: "parseBool_or (env_get env ''STEAMCMD_INITIAL_DOWNLOAD_VALIDATE'') False = Inr b5"
    using parseBool_or_env_total by blast
  from assms show ?thesis
    by (auto simp: lifecycle_globals_def Let_def bind_err_def b1 b2 b4 b5
          parseBool_or_env_True split: if_splits)
qed

lemma lifecycle_globals_error_independent:
  assumes "\<forall>name. name \<noteq> ''STEAMCMD_LOGIN_ANON'' \<longrightarrow> env1 name = env2 name"
  shows "map_sum id steamcmdAnonymous (lifecycle_globals path_resolve env1)
       = map_sum id steamcmdAnonymous (lifecycle_globals path_resolve env2)"
proof -
  have g: "env_or_false env1 ''GAME_ID'' = env_or_false env2 ''GAME_ID''"
    using assms by (simp add: env_or_false_def env_get_def)
  have i: "env_or_false env1 ''INSTANCE_ID'' = env_or_false env2 ''INSTANCE_ID''"
    using assms by (simp add: env_or_false_def env_get_def)
  have r: "env_or_false env1 ''SERVER_FILES_ROOT_DIR'' = env_or_false env2 ''SERVER_FILES_ROOT_DIR''"
    using assms by (simp add: env_or_false_def env_get_def)
  obtain a1 where a1: "parseBool_or (env_get env1 ''STEAMCMD_FILES_FORCE'') False = Inr a1"
    using parseBool_or_env_total by blast
  obtain a2 where a2: "parseBool_or (env_get env1 ''SERVER_FILES_FORCE'') False = Inr a2"
    using parseBool_or_env_total by blast
  obtain a4 where a4: "parseBool_or (env_get env1 ''STEAMCMD_TWOFACTOR_ENABLED'') False = Inr a4"
    using parseBool_or_env_total by blast
  obtain a5 where
    a5: "parseBool_or (env_get env1 ''STEAMCMD_INITIAL_DOWNLOAD_VALIDATE'') False = Inr a5"
    using parseBool_or_env_total by blast
  obtain c1 where c1: "parseBool_or (env_get env2 ''STEAMCMD_FILES_FORCE'') False = Inr c1"
    using parseBool_or_env_total by blast
  obtain c2 where c2: "parseBool_or (env_get env2 ''SERVER_FILES_FORCE'') False = Inr c2"
    using parseBool_or_env_total by blast
  obtain c4 where c4: "parseBool_or (env_get env2 ''STEAMCMD_TWOFACTOR_ENABLED'') False = Inr c4"
    using parseBool_or_env_total by blast
  obtain c5 where
    c5: "parseBool_or (env_get env2 ''STEAMCMD_INITIAL_DOWNLOAD_VALIDATE'') False = Inr c5"
    using parseBool_or_env_total by blast
  note a = a1 a2 a4 a5 and c = c1 c2 c4 c5
  show ?thesis
    by (simp add: lifecycle_globals_def Let_def bind_err_def g i r a c parseBool_or_env_True)
qed

lemma sent_exit [simp]: "sent (exit code s) = sent s"
  by (simp add: exit_def)

lemma sent_release_then_exit [simp]: "sent (fst (release_then_exit E code s)) = sent s"
  by (simp add: release_then_exit_def)

lemma sent_lc_acquire [simp]: "sent (fst (lc_acquire E s)) = sent s"
  by (simp add: lc_acquire_def split: lock_outcome.splits)

lemma sent_lc_wait [simp]: "sent (fst (lc_wait timeout pongs E s)) = sent s"
  by (simp add: lc_wait_def)

lemma sent_lc_wait_downloadManager [simp]: "sent (fst (lc_wait_downloadManager E s)) = sent s"
  by (simp add: lc_wait_downloadManager_def)

lemma sent_lc_wait_configManager [simp]: "sent (fst (lc_wait_configManager E s)) = sent s"
  by (simp add: lc_wait_configManager_def)

lemma sent_lc_config [simp]: "sent (fst (lc_config g E s)) = sent s"
  by (simp add: lc_config_def downloadUpdateServerConfigGit_def)

lemma sent_lc_download:
  "sent (fst (lc_download g E s))
   = sent s @ [(''downloadManager.downloadUpdateGame'', lifecycle_request g (lc_requestId E))]"
  by (simp add: lc_download_def Let_def split: settle.splits)

lemma sent_and_then:
  assumes "\<And>s. set (sent (fst (k s))) \<subseteq> set (sent s) \<union> A" "set (sent (fst r)) \<subseteq> A"
  shows "set (sent (fst (and_then r k))) \<subseteq> A"
proof (cases r)
  case (Pair s e)
  show ?thesis
  proof (cases e)
    case None
    with Pair assms(1) [of s] assms(2) show ?thesis by (auto simp: and_then_def)
  next
    case (Some a)
    with Pair assms(2) show ?thesis by (simp add: and_then_def)
  qed
qed

lemma sent_lifecycle_start:
  "set (sent (fst (lifecycle_start g E)))
   \<subseteq> {(''downloadManager.downloadUpdateGame'', lifecycle_request g (lc_requestId E))}"
proof -
  let ?A = "{(''downloadManager.downloadUpdateGame'', lifecycle_request g (lc_requestId E))}"
  let ?r = "and_then (and_then (and_then (and_then
              (lc_acquire E lc_init)
              (lc_wait_downloadManager E))
              (lc_download g E))
              (lc_wait_configManager E))
              (lc_config g E)"
  have "set (sent (fst ?r)) \<subseteq> ?A"
    by (intro sent_and_then) (auto simp add: sent_lc_download lc_init_def)
  moreover have "fst (lifecycle_start g E) = fst ?r"
    by (simp add: lifecycle_start_def split: prod.splits option.splits)
  ultimately show ?thesis by simp
qed

lemma anonymous_lifecycle_request:
  "get_prop (lifecycle_request g requestId) ''anonymous'' = JBool (steamcmdAnonymous g)"
  by (simp add: lifecycle_request_def get_prop_def)

text \<open>
  Claim C10. Two environments that differ only in \<open>STEAMCMD_LOGIN_ANON\<close> give the same
  anonymous-login flag: \<open>parseBool(env) || true\<close> is \<open>true\<close> whatever the variable holds,
  the globals are rejected or accepted alike, and every download request that the
  coordinator publishes carries \<open>anonymous = true\<close>.
\<close>

theorem steamcmdAnonymous_constant_true:
  assumes "\<forall>name. name \<noteq> ''STEAMCMD_LOGIN_ANON'' \<longrightarrow> env1 name = env2 name"
  shows "parseBool_or (env_get env1 ''STEAMCMD_LOGIN_ANON'') True = Inr True
       \<and> parseBool_or (env_get env2 ''STEAMCMD_LOGIN_ANON'') True = Inr True
       \<and> map_sum id steamcmdAnonymous (lifecycle_globals path_resolve env1)
           = map_sum id steamcmdAnonymous (lifecycle_globals path_resolve env2)
       \<and> (\<forall>g. lifecycle_globals path_resolve env1 = Inr g \<longrightarrow>
             steamcmdAnonymous g
             \<and> (\<forall>E m. m \<in> set (sent (fst (lifecycle_start g E))) \<longrightarrow>
                   get_prop (snd m) ''anonymous'' = JBool True))"
proof (intro conjI allI impI)
  show "parseBool_or (env_get env1 ''STEAMCMD_LOGIN_ANON'') True = Inr True"
    by (rule parseBool_or_env_True)
  show "parseBool_or (env_get env2 ''STEAMCMD_LOGIN_ANON'') True = Inr True"
    by (rule parseBool_or_env_True)
  show "map_sum id steamcmdAnonymous (lifecycle_globals path_resolve env1)
      = map_sum id steamcmdAnonymous (lifecycle_globals path_resolve env2)"
    using assms by (rule lifecycle_globals_error_independent)
next
  fix g
  assume "lifecycle_globals path_resolve env1 = Inr g"
  then show "steamcmdAnonymous g" by (rule lifecycle_globals_anonymous)
next
  fix g E m
  assume g: "lifecycle_globals path_resolve env1 = Inr g"
    and m: "m \<in> set (sent (fst (lifecycle_start g E)))"
  from m sent_lifecycle_start [of g E]
  have "snd m = lifecycle_request g (lc_requestId E)" by auto
  moreover from g have "steamcmdAnonymous g" by (rule lifecycle_globals_anonymous)
  ultimately show "get_prop (snd m) ''anonymous'' = JBool True"
    by (simp add: anonymous_lifecycle_request)
qed

lemma example_env_differs:
  "\<forall>name. name \<noteq> ''STEAMCMD_LOGIN_ANON'' \<longrightarrow> example_env name = example_env_unset name"
  by (simp add: example_env_unset_def)

lemma parseBool_env_false_text:
  "parseBool (env_get example_env ''STEAMCMD_LOGIN_ANON'') = Inr False"
  by (simp add: env_get_def example_env_def parseBool_def Let_def) code_simp

theorem steamcmdAnonymous_constant_true_witness:
  "example_env_unset = example_env(''STEAMCMD_LOGIN_ANON'' := None)
   \<and> example_env ''STEAMCMD_LOGIN_ANON'' = Some ''false''
   \<and> example_env_unset ''STEAMCMD_LOGIN_ANON'' = None
   \<and> parseBool (env_get example_env ''STEAMCMD_LOGIN_ANON'') = Inr False
   \<and> parseBool_or (env_get example_env ''STEAMCMD_LOGIN_ANON'') True = Inr True
   \<and> map_sum id steamcmdAnonymous (lifecycle_globals (join ''/'') example_env) = Inr True
   \<and> map_sum id steamcmdAnonymous (lifecycle_globals (join ''/'') example_env_unset)
       = Inr True"
proof -
  note t = steamcmdAnonymous_constant_true [OF example_env_differs, of "join ''/''"]
  have ok: "\<exists>g. lifecycle_globals (join ''/'') example_env = Inr g"
  proof -
    obtain b1 where b1: "parseBool_or (env_get example_env ''STEAMCMD_FILES_FORCE'') False = Inr b1"
      using parseBool_or_env_total by blast
    obtain b2 where b2: "parseBool_or (env_get example_env ''SERVER_FILES_FORCE'') False = Inr b2"
      using parseBool_or_env_total by blast
    obtain b3 where b3: "parseBool_or (env_get example_env ''STEAMCMD_LOGIN_ANON'') True = Inr b3"
      using parseBool_or_env_total by blast
    obtain b4 where
      b4: "parseBool_or (env_get example_env ''STEAMCMD_TWOFACTOR_ENABLED'') False = Inr b4"
      using parseBool_or_env_total by blast
    obtain b5 where
      b5: "parseBool_or (env_get example_env ''STEAMCMD_INITIAL_DOWNLOAD_VALIDATE'') False = Inr b5"
      using parseBool_or_env_total by blast
    note b = b1 b2 b3 b4 b5
    have v: "env_or_false example_env ''GAME_ID'' = JStr ''csgo''"
        "env_or_false example_env ''INSTANCE_ID'' = JStr ''my-casual-server''"
        "env_or_false example_env ''SERVER_FILES_ROOT_DIR'' = JStr ''/opt/gsm''"
      by (simp_all add: env_or_false_def env_get_def example_env_def js_or_def)
    show ?thesis
      by (simp add: lifecycle_globals_def Let_def bind_err_def b v)
  qed
  then obtain g where g: "lifecycle_globals (join ''/'') example_env = Inr g" by blast
  with t have "steamcmdAnonymous g" by blast
  with g have one: "map_sum id steamcmdAnonymous (lifecycle_globals (join ''/'') example_env)
      = Inr True"
    by simp
  with t have two: "map_sum id steamcmdAnonymous
        (lifecycle_globals (join ''/'') example_env_unset) = Inr True"
    by simp
  have five: "example_env_unset ''STEAMCMD_LOGIN_ANON'' = None"
    by (simp add: example_env_unset_def)
  from t have three: "parseBool_or (env_get example_env ''STEAMCMD_LOGIN_ANON'') True = Inr True"
    by blast
  have four: "example_env ''STEAMCMD_LOGIN_ANON'' = Some ''false''"
    by (simp add: example_env_def)
  from one two three four five example_env_unset_def parseBool_env_false_text
  show ?thesis by simp
qed

text \<open>The handler never passes 4 to \<open>exit\<close>: the configuration fetch always rejects.\<close>

lemma exitCalls_and_then:
  assumes "\<And>s. set (exitCalls (fst (k s))) \<subseteq> set (exitCalls s) \<union> A"
    "set (exitCalls (fst r)) \<subseteq> A"
  shows "set (exitCalls (fst (and_then r k))) \<subseteq> A"
proof (cases r)
  case (Pair s e)
  show ?thesis
  proof (cases e)
    case None
    with Pair assms(1) [of s] assms(2) show ?thesis by (auto simp: and_then_def)
  next
    case (Some a)
    with Pair assms(2) show ?thesis by (simp add: and_then_def)
  qed
qed

lemma lifecycle_exit_codes:
  "set (exitCalls (fst (lifecycle_start g E))) \<subseteq> {1, 2, 3}"
proof -
  let ?r = "and_then (and_then (and_then (and_then
              (lc_acquire E lc_init)
              (lc_wait_downloadManager E))
              (lc_download g E))
              (lc_wait_configManager E))
              (lc_config g E)"
  have "set (exitCalls (fst ?r)) \<subseteq> {1, 2, 3}"
    by (intro exitCalls_and_then)
       (auto simp: lc_acquire_def lc_wait_downloadManager_def lc_download_def
          lc_wait_configManager_def lc_wait_def lc_config_def downloadUpdateServerConfigGit_def
          release_then_exit_def exit_def lc_init_def Let_def
          split: lock_outcome.splits settle.splits if_splits)
  moreover have "fst (lifecycle_start g E) = fst ?r"
    by (simp add: lifecycle_start_def split: prod.splits option.splits)
  ultimately show ?thesis by simp
qed

lemma waitModuleRunning_one_reply:
  "waitModuleRunning 60 0 [[7]]" "waitModuleRunning 30 0 [[9]]"
  by simp_all

text \<open>
  Once \<open>exit\<close> has been called, a wait for a module with the timeouts of the handler
  (60 and 30) never resolves, whatever replies are on their way: the bus is stopped,
  and the force-exit timer throws while the handler is suspended.
\<close>

lemma lc_wait_after_exit:
  assumes "5 \<le> timeout"
  shows "lc_wait timeout pongs E (exit code s)
         = ((exit code s)\<lparr>uncaught := Some (ThrownError ''Timeout expired, forcing exit.'')\<rparr>,
            Some Suspended)"
  using assms by (simp add: lc_wait_def exit_def)

text \<open>
  When the download completes, the configuration fetch rejects (it is not
  implemented) and its \<open>catch\<close> passes 2 to \<open>exit\<close>; the handler then returns.
\<close>

lemma lifecycle_config_fetch_exit_code:
  "exitCalls (fst (lifecycle_start example_globals download_completes)) = [2]
   \<and> snd (lifecycle_start example_globals download_completes) = Returned"
  by (simp add: lifecycle_start_def and_then_def lc_acquire_def lc_wait_downloadManager_def
        lc_download_def lc_wait_configManager_def lc_wait_def lc_config_def lc_init_def
        downloadUpdateServerConfigGit_def release_then_exit_def exit_def Let_def
        download_fails_def download_completes_def subscribeTo_of_def hasOwnProperty_def
        get_prop_def)

text \<open>
  Claim C6 where the base-game download fails. The download manager acknowledges the
  request and then publishes an \<open>error\<close> (first run) or a \<open>finalStatus\<close> with reason
  \<open>failed\<close> (second run). In both runs the promise of the download is rejected and the
  handler's \<open>catch\<close> passes 2, not 3, to \<open>exit\<close>. \<open>exit\<close> stops the bus and returns; the
  handler goes on to wait for the config manager, whose replies are no longer
  delivered, and is still suspended there when the force-exit timer throws: \<open>exit\<close> is
  called once, and the process ends with status 1 on the uncaught exception.
\<close>

theorem lifecycle_download_failure_exit_code:
  "lc_downloadUpdateGame ''lifecycleManager.r1'' (bus download_fails)
     = Rejected (JErr ''[object Object]'')
   \<and> exitCalls (fst (lifecycle_start example_globals download_fails)) = [2]
   \<and> snd (lifecycle_start example_globals download_fails) = Suspended
   \<and> uncaught (fst (lifecycle_start example_globals download_fails))
       = Some (ThrownError ''Timeout expired, forcing exit.'')
   \<and> exit_status (fst (lifecycle_start example_globals download_fails)) = Some 1
   \<and> exitCalls (fst (lifecycle_start example_globals download_failed_status)) = [2]
   \<and> snd (lifecycle_start example_globals download_failed_status) = Suspended
   \<and> exit_status (fst (lifecycle_start example_globals download_failed_status)) = Some 1"
  by (simp add: lifecycle_start_def and_then_def lc_acquire_def lc_wait_downloadManager_def
        lc_download_def lc_wait_configManager_def lc_wait_def lc_config_def lc_init_def
        downloadUpdateServerConfigGit_def release_then_exit_def exit_def exit_status_def
        Let_def download_fails_def download_failed_status_def subscribeTo_of_def
        hasOwnProperty_def get_prop_def)
section \<open>Properties of the download manager\<close>

lemma published_reply [simp]:
  "published (reply E subchannel message request s)
   = published s @ [sendRequestReply ''downloadManager'' (now E) subchannel message request]"
  by (simp add: reply_def)

lemma runningDownloads_reply [simp]:
  "runningDownloads (reply E subchannel message request s) = runningDownloads s"
  by (simp add: reply_def)

lemma lockDir_reply [simp]: "lockDir (reply E subchannel message request s) = lockDir s"
  by (simp add: reply_def)

lemma msg_channel_sendRequestReply [simp]:
  "msg_channel (sendRequestReply moduleIdent t subchannel message info)
   = js_toString (get_prop info ''replyTo'')"
  by (simp add: sendRequestReply_def Let_def)

lemma msg_subchannel_sendRequestReply [simp]:
  "msg_subchannel (sendRequestReply moduleIdent t subchannel message info) = subchannel"
  by (simp add: sendRequestReply_def Let_def)

lemma releaseLock_fields:
  assumes "releaseLock E lockId s = Inr s'"
  shows "runningDownloads s' = runningDownloads s" "published s' = published s"
    "lockDir s' = removeAll lockId (lockDir s)"
  using assms by (auto simp: releaseLock_def split: option.splits)

lemma set_download_fields [simp]:
  "runningDownloads (set_download g r s) = (runningDownloads s)(g \<mapsto> r)"
  "published (set_download g r s) = published s"
  "lockDir (set_download g r s) = lockDir s"
  by (simp_all add: set_download_def)

lemma delete_download_fields [simp]:
  "runningDownloads (delete_download g s) = (runningDownloads s)(g := None)"
  "published (delete_download g s) = published s"
  "lockDir (delete_download g s) = lockDir s"
  by (simp_all add: delete_download_def)

lemma update_download_fields:
  assumes "update_download g f s = Inr s'"
  shows "\<exists>r. runningDownloads s g = Some r \<and> runningDownloads s' = (runningDownloads s)(g \<mapsto> f r)"
    "published s' = published s" "lockDir s' = lockDir s"
  using assms by (auto simp: update_download_def split: option.splits)

lemma inflight_from_refl: "inflight_from s s"
  by (auto simp: inflight_from_def)

lemma inflight_from_trans:
  "inflight_from s s' \<Longrightarrow> inflight_from s' s'' \<Longrightarrow> inflight_from s s''"
  unfolding inflight_from_def by blast

lemma inflight_from_same:
  "runningDownloads s' = runningDownloads s \<Longrightarrow> inflight_from s s'"
  by (auto simp: inflight_from_def)

lemma inflight_from_delete:
  "runningDownloads s' = (runningDownloads s)(g := None) \<Longrightarrow> inflight_from s s'"
  by (auto simp: inflight_from_def split: if_splits)

lemma inflight_from_blank:
  "runningDownloads s' = (runningDownloads s)(g \<mapsto> blank_record) \<Longrightarrow> inflight_from s s'"
  by (auto simp: inflight_from_def blank_record_def split: if_splits)

lemma inflight_from_update:
  assumes "update_download g f s = Inr s'" "\<And>r. tr_request (f r) = tr_request r"
  shows "inflight_from s s'"
  using assms
  by (auto simp: inflight_from_def update_download_def split: option.splits if_splits)

lemma inflight_from_releaseLock:
  "releaseLock E l s = Inr s' \<Longrightarrow> inflight_from s s'"
  by (auto simp: releaseLock_def inflight_from_def split: option.splits)

lemma inflight_from_on_sink: "inflight_from s (on_sink E request s p)"
  by (cases p)
     (auto simp: on_sink_def Let_def inflight_from_def split: option.splits if_splits)

lemma inflight_from_foldl_on_sink: "inflight_from s (foldl (on_sink E request) s ps)"
proof (induction ps arbitrary: s)
  case Nil
  show ?case by (simp add: inflight_from_refl)
next
  case (Cons p ps)
  from inflight_from_on_sink [of s E request p] Cons [of "on_sink E request s p"]
  show ?case by (auto intro: inflight_from_trans)
qed

lemma inflight_from_dug_catch: "inflight_from s (fst (dug_catch E request error s))"
  by (auto simp: dug_catch_def Let_def inflight_from_def releaseLock_def blank_record_def
        split: option.splits if_splits)

lemma inflight_from_dug_unsupported: "inflight_from s (fst (dug_unsupported E request s))"
  by (auto simp: dug_unsupported_def Let_def inflight_from_def releaseLock_def blank_record_def
        split: option.splits if_splits)

lemma inflight_from_dug_spinLock: "inflight_from s (fst (dug_spinLock E request s))"
  by (auto simp: dug_spinLock_def inflight_from_def split: option.splits if_splits)

lemma inflight_from_dug_spinClear: "inflight_from s (fst (dug_spinClear E request s))"
  by (auto simp: dug_spinClear_def Let_def inflight_from_def releaseLock_def
        split: option.splits if_splits)

lemma inflight_from_dug_prepare: "inflight_from s (fst (dug_prepare E request s))"
  by (auto simp: dug_prepare_def Let_def inflight_from_def releaseLock_def update_download_def
        split: option.splits if_splits)

lemma inflight_from_dug_steamcmd: "inflight_from s (fst (dug_steamcmd E gameInfo request s))"
proof -
  let ?s1 = "foldl (on_sink E request) s (streamed E)"
  have a: "inflight_from s ?s1" by (rule inflight_from_foldl_on_sink)
  have c: "\<And>e s0. inflight_from s0 (fst (dug_catch E request e s0))"
    by (rule inflight_from_dug_catch)
  show ?thesis
  proof (cases "downloadSelf E")
    case Pending
    then show ?thesis by (simp add: dug_steamcmd_def inflight_from_refl)
  next
    case (Rejected e)
    then show ?thesis by (simp add: dug_steamcmd_def c)
  next
    case (Resolved u)
    show ?thesis
    proof (cases "downloadAppid E")
      case Pending
      with Resolved a show ?thesis by (simp add: dug_steamcmd_def Let_def)
    next
      case (Rejected e)
      with Resolved a c [of ?s1 e] show ?thesis
        by (auto simp: dug_steamcmd_def Let_def intro: inflight_from_trans)
    next
      case res: (Resolved result)
      let ?f = "\<lambda>r. r\<lparr>tr_downloadLocked := Some False,
                        tr_downloadState := Some (get_prop result ''status'')\<rparr>"
      show ?thesis
      proof (cases "update_download (gameId_of request) ?f ?s1")
        case (Inl e)
        with Resolved res a c [of ?s1] show ?thesis
          by (auto simp: dug_steamcmd_def Let_def intro: inflight_from_trans)
      next
        case (Inr s2)
        then have b: "inflight_from ?s1 s2" by (rule inflight_from_update) simp
        let ?s4 = "(reply E ''finalStatus'' result request s2)\<lparr>pingReply := ''ready''\<rparr>"
        have d: "inflight_from s2 ?s4" by (rule inflight_from_same) simp
        show ?thesis
        proof (cases "releaseLock E (globalLockId request) ?s4")
          case (Inl e)
          with Resolved res Inr a b d c [of ?s4] show ?thesis
            by (auto simp: dug_steamcmd_def Let_def intro: inflight_from_trans)
        next
          case rel: (Inr s5)
          then have e: "inflight_from ?s4 s5" by (rule inflight_from_releaseLock)
          have f: "inflight_from s5 (delete_download (gameId_of request) s5)"
            by (rule inflight_from_delete) simp
          from a b have "inflight_from s s2" by (rule inflight_from_trans)
          from this d have "inflight_from s ?s4" by (rule inflight_from_trans)
          from this e have "inflight_from s s5" by (rule inflight_from_trans)
          from this f have "inflight_from s (delete_download (gameId_of request) s5)"
            by (rule inflight_from_trans)
          then show ?thesis
            using Resolved res Inr rel by (simp add: dug_steamcmd_def Let_def)
        qed
      qed
    qed
  qed
qed

lemma inflight_from_dug_run: "inflight_from s (fst (dug_run E gameInfo request s))"
  by (simp add: dug_run_def inflight_from_dug_steamcmd inflight_from_dug_unsupported)

lemma inflight_from_and_then:
  assumes "inflight_from s (fst r)" "\<And>s'. inflight_from s' (fst (k s'))"
  shows "inflight_from s (fst (and_then r k))"
proof (cases r)
  case (Pair s' e)
  with assms(1) assms(2) [of s'] show ?thesis
    by (cases e) (auto simp: and_then_def intro: inflight_from_trans)
qed

lemma tasks_validated_inflight_from:
  "tasks_validated E s \<Longrightarrow> inflight_from s s' \<Longrightarrow> tasks_validated E s'"
  unfolding tasks_validated_def inflight_from_def by blast

lemma tasks_validated_init: "tasks_validated E init_state"
  by (simp add: tasks_validated_def init_state_def)

lemma tasks_validated_downloadUpdateGame:
  assumes "tasks_validated E s" "loadManifest E' = loadManifest E"
  shows "tasks_validated E (fst (downloadUpdateGame E' s request))"
proof -
  have fst_eq: "fst (downloadUpdateGame E' s request) = fst (dug E' s request)"
    by (simp add: downloadUpdateGame_def split: prod.splits option.splits)
  show ?thesis
  proof (cases "reaches_ack E' s request \<or>
      (truthy (get_prop request ''gameId'')
       \<and> get_prop request ''gameId'' \<in> set (map JStr supportedGames)
       \<and> (\<exists>gameInfo. loadManifest E' (gameId_of request) = Inr gameInfo)
       \<and> runningDownloads s (gameId_of request) = None)")
    case False
    then have "inflight_from s (fst (dug E' s request))"
      by (auto simp: dug_def Let_def inflight_from_def releaseLock_def
            split: sum.splits option.splits if_splits)
    with assms(1) fst_eq show ?thesis
      by (simp add: tasks_validated_inflight_from)
  next
    case True
    then obtain gameInfo where
      g: "truthy (get_prop request ''gameId'')"
         "get_prop request ''gameId'' \<in> set (map JStr supportedGames)"
         "loadManifest E' (gameId_of request) = Inr gameInfo"
         "runningDownloads s (gameId_of request) = None"
      by (auto simp: reaches_ack_def split: sum.splits)
    let ?s0 = "set_download (gameId_of request) (new_record request gameInfo) s"
    have sup: "gameId_of request \<in> set supportedGames"
      using g(2) by (auto simp: gameId_of_def)
    have v0: "tasks_validated E ?s0"
      using assms g(3) sup
      by (auto simp: tasks_validated_def new_record_def split: if_splits)
    have "inflight_from ?s0 (fst (and_then (dug_spinLock E' request ?s0)
                    (\<lambda>s. and_then (dug_spinClear E' request s)
                    (\<lambda>s. and_then (dug_prepare E' request s)
                    (dug_run E' gameInfo request)))))"
      by (intro inflight_from_and_then inflight_from_dug_spinLock inflight_from_dug_spinClear
            inflight_from_dug_prepare inflight_from_dug_run)
    moreover have "dug E' s request = and_then (dug_spinLock E' request ?s0)
                    (\<lambda>s. and_then (dug_spinClear E' request s)
                    (\<lambda>s. and_then (dug_prepare E' request s)
                    (dug_run E' gameInfo request)))"
      using g by (simp add: dug_def)
    ultimately show ?thesis
      using v0 fst_eq by (simp add: tasks_validated_inflight_from)
  qed
qed

lemma sendRequestReply_nack:
  "sendRequestReply ''downloadManager'' (now E) ''nack''
     [(''alreadyRequested'', JBool True), (''alreadyMounted'', JNull),
      (''reason'', JStr ''already requested''),
      (''subscribeTo'', get_prop inflight ''replyTo''),
      (''requestId'', get_prop inflight ''requestId''),
      (''request'', JObj inflight)] request
   = \<lparr>msg_channel = replyTo_of request, msg_subchannel = ''nack'',
      msg_payload = (case JSON_stringify (nack_object E inflight request) of
                       Some t \<Rightarrow> t | None \<Rightarrow> ''undefined'')\<rparr>"
  by (simp add: sendRequestReply_def Let_def nack_object_def replyTo_of_def)

lemma tasks_validated_csgo_in_flight: "tasks_validated download_ok csgo_in_flight"
  by (auto simp: tasks_validated_def csgo_in_flight_def init_state_def new_record_def
        supportedGames_def download_ok_def manifests_def gameId_of_def csgo_request_def
        get_prop_def split: if_splits)

lemma nack_payload_example:
  "JSON_stringify (nack_object download_ok (csgo_request ''r1'') (csgo_request ''r2''))
   = Some nack_example_text"
  by code_simp

lemma nack_has_alreadyRequested:
  "sublist ''\"alreadyRequested\":true,''
     nack_example_text"
  by code_simp

lemma nack_has_subscribeTo:
  "sublist ''\"subscribeTo\":\"cli.r1\",''
     nack_example_text"
  by code_simp

text \<open>
  A request whose \<open>gameId\<close> has a task in flight (an entry of \<open>runningDownloads\<close> that
  still carries its originating request) is answered by exactly one message, a \<open>nack\<close>
  on the request's own channel whose payload has \<open>alreadyRequested = true\<close> and
  \<open>subscribeTo\<close> equal to the \<open>replyTo\<close> of the originating request, and the table of
  downloads is left as it was.
\<close>

lemma live_entry_gets_nack:
  assumes "tasks_validated E s"
    and "get_prop request ''gameId'' = JStr gameId"
    and "runningDownloads s gameId = Some entry"
    and "tr_request entry = Some inflight"
  shows "downloadUpdateGame E s request
         = (s\<lparr>published := published s
               @ [\<lparr>msg_channel = replyTo_of request, msg_subchannel = ''nack'',
                   msg_payload = (case JSON_stringify (nack_object E inflight request) of
                                    Some t \<Rightarrow> t | None \<Rightarrow> ''undefined'')\<rparr>]\<rparr>,
            Returned)
       \<and> runningDownloads (fst (downloadUpdateGame E s request)) = runningDownloads s
       \<and> map topic (new_messages E s request) = [replyTo_of request @ ''.nack'']
       \<and> (\<exists>ps. nack_object E inflight request = JObj ps
              \<and> get_prop ps ''alreadyRequested'' = JBool True
              \<and> get_prop ps ''subscribeTo'' = get_prop inflight ''replyTo'')"
proof -
  from assms obtain gameInfo where
    sup: "gameId \<in> set supportedGames" and man: "loadManifest E gameId = Inr gameInfo"
    unfolding tasks_validated_def by blast
  have gid: "gameId_of request = gameId"
    using assms(2) by (simp add: gameId_of_def)
  have tr: "truthy (get_prop request ''gameId'')"
    using assms(2) sup by (auto simp: supportedGames_def)
  have mem: "get_prop request ''gameId'' \<in> set (map JStr supportedGames)"
    using assms(2) sup by simp
  have d: "dug E s request
      = (reply E ''nack''
           [(''alreadyRequested'', JBool True), (''alreadyMounted'', JNull),
            (''reason'', JStr ''already requested''),
            (''subscribeTo'', get_prop inflight ''replyTo''),
            (''requestId'', get_prop inflight ''requestId''),
            (''request'', JObj inflight)] request s, Some Returned)"
    using tr mem man gid assms(3,4) by (simp add: dug_def)
  have one: "downloadUpdateGame E s request
         = (s\<lparr>published := published s
               @ [\<lparr>msg_channel = replyTo_of request, msg_subchannel = ''nack'',
                   msg_payload = (case JSON_stringify (nack_object E inflight request) of
                                    Some t \<Rightarrow> t | None \<Rightarrow> ''undefined'')\<rparr>]\<rparr>,
            Returned)"
    by (simp add: downloadUpdateGame_def d reply_def sendRequestReply_nack)
  have two: "runningDownloads (fst (downloadUpdateGame E s request)) = runningDownloads s"
    by (simp add: one)
  have three: "map topic (new_messages E s request) = [replyTo_of request @ ''.nack'']"
    by (simp add: new_messages_def one topic_def)
  have four: "\<exists>ps. nack_object E inflight request = JObj ps
              \<and> get_prop ps ''alreadyRequested'' = JBool True
              \<and> get_prop ps ''subscribeTo'' = get_prop inflight ''replyTo''"
    by (simp add: nack_object_def get_prop_def)
  from one two three four show ?thesis by blast
qed

lemma live_entry_gets_nack_example:
  "tasks_validated download_ok csgo_in_flight
   \<and> get_prop (csgo_request ''r2'') ''gameId'' = JStr ''csgo''
   \<and> runningDownloads csgo_in_flight ''csgo''
       = Some (new_record (csgo_request ''r1'') csgo_manifest)
   \<and> tr_request (new_record (csgo_request ''r1'') csgo_manifest) = Some (csgo_request ''r1'')
   \<and> get_prop (csgo_request ''r1'') ''replyTo'' = JStr ''cli.r1''
   \<and> map topic (new_messages download_ok csgo_in_flight (csgo_request ''r2''))
       = [''cli.r2.nack'']
   \<and> runningDownloads (fst (downloadUpdateGame download_ok csgo_in_flight (csgo_request ''r2'')))
       = runningDownloads csgo_in_flight
   \<and> snd (downloadUpdateGame download_ok csgo_in_flight (csgo_request ''r2'')) = Returned
   \<and> map (sublist ''\"alreadyRequested\":true,'' \<circ> msg_payload)
         (new_messages download_ok csgo_in_flight (csgo_request ''r2'')) = [True]
   \<and> map (sublist ''\"subscribeTo\":\"cli.r1\",'' \<circ> msg_payload)
         (new_messages download_ok csgo_in_flight (csgo_request ''r2'')) = [True]"
proof -
  have g: "get_prop (csgo_request ''r2'') ''gameId'' = JStr ''csgo''"
    by (simp add: csgo_request_def get_prop_def)
  have e: "runningDownloads csgo_in_flight ''csgo''
       = Some (new_record (csgo_request ''r1'') csgo_manifest)"
    by (simp add: csgo_in_flight_def)
  have r: "tr_request (new_record (csgo_request ''r1'') csgo_manifest)
       = Some (csgo_request ''r1'')"
    by (simp add: new_record_def)
  have p: "get_prop (csgo_request ''r1'') ''replyTo'' = JStr ''cli.r1''"
    by (simp add: csgo_request_def get_prop_def)
  have q: "replyTo_of (csgo_request ''r2'') = ''cli.r2''"
    by (simp add: replyTo_of_def csgo_request_def get_prop_def)
  note t = live_entry_gets_nack [OF tasks_validated_csgo_in_flight g e r]
  from t have "map topic (new_messages download_ok csgo_in_flight (csgo_request ''r2''))
       = [''cli.r2.nack'']"
    by (simp add: q)
  moreover from t have
    "runningDownloads (fst (downloadUpdateGame download_ok csgo_in_flight (csgo_request ''r2'')))
       = runningDownloads csgo_in_flight"
    by blast
  moreover from t have
    "snd (downloadUpdateGame download_ok csgo_in_flight (csgo_request ''r2'')) = Returned"
    by simp
  moreover from t have
    "map msg_payload (new_messages download_ok csgo_in_flight (csgo_request ''r2''))
       = [case JSON_stringify (nack_object download_ok (csgo_request ''r1'') (csgo_request ''r2''))
          of Some t \<Rightarrow> t | None \<Rightarrow> ''undefined'']"
    by (simp add: new_messages_def)
  then have "map msg_payload (new_messages download_ok csgo_in_flight (csgo_request ''r2''))
       = [nack_example_text]"
    by (simp only: nack_payload_example option.case)
  then have
    "map (sublist ''\"alreadyRequested\":true,'' \<circ> msg_payload)
         (new_messages download_ok csgo_in_flight (csgo_request ''r2'')) = [True]
     \<and> map (sublist ''\"subscribeTo\":\"cli.r1\",'' \<circ> msg_payload)
         (new_messages download_ok csgo_in_flight (csgo_request ''r2'')) = [True]"
    by (simp only: map_map [symmetric] list.map nack_has_alreadyRequested
          nack_has_subscribeTo simp_thms)
  ultimately show ?thesis
    using tasks_validated_csgo_in_flight g e r p by blast
qed


lemma published_on_sink:
  "\<exists>ms. published (on_sink E request s p) = published s @ ms
        \<and> list_all (\<lambda>m. \<not> is_terminal request m) ms"
  by (cases p)
     (auto simp: on_sink_def Let_def is_terminal_def split: option.splits)

lemma published_foldl_on_sink:
  "\<exists>ms. published (foldl (on_sink E request) s ps) = published s @ ms
        \<and> list_all (\<lambda>m. \<not> is_terminal request m) ms"
proof (induction ps arbitrary: s)
  case Nil
  show ?case by simp
next
  case (Cons p ps)
  obtain ms1 where 1: "published (on_sink E request s p) = published s @ ms1"
      "list_all (\<lambda>m. \<not> is_terminal request m) ms1"
    using published_on_sink by blast
  obtain ms2 where 2: "published (foldl (on_sink E request) (on_sink E request s p) ps)
        = published (on_sink E request s p) @ ms2"
      "list_all (\<lambda>m. \<not> is_terminal request m) ms2"
    using Cons by blast
  from 1 2 have "published (foldl (on_sink E request) s (p # ps)) = published s @ (ms1 @ ms2)
      \<and> list_all (\<lambda>m. \<not> is_terminal request m) (ms1 @ ms2)"
    by simp
  then show ?case by blast
qed

lemma is_terminal_reply_error [simp]:
  "is_terminal request (sendRequestReply moduleIdent t ''error'' message request)"
  by (simp add: is_terminal_def replyTo_of_def)

lemma is_terminal_reply_finalStatus [simp]:
  "is_terminal request (sendRequestReply moduleIdent t ''finalStatus'' message request)"
  by (simp add: is_terminal_def replyTo_of_def)

lemma published_dug_catch:
  "published (fst (dug_catch E request error s))
   = published s @ (if error \<noteq> JNull \<and> error \<noteq> JUndefined
                    then [sendRequestReply ''downloadManager'' (now E) ''error''
                            [(''error'', error_message error)] request]
                    else [])"
  by (auto simp: dug_catch_def Let_def releaseLock_def split: option.splits)

lemma published_dug_unsupported:
  "published (fst (dug_unsupported E request s))
   = published s @ [sendRequestReply ''downloadManager'' (now E) ''error''
                      [(''error'', JErr ''unsupported request'')] request]"
  by (auto simp: dug_unsupported_def Let_def releaseLock_def split: option.splits)

lemma terminals_dug_steamcmd:
  assumes "work_settles E"
    and "rejection_of E \<noteq> Some JNull" "rejection_of E \<noteq> Some JUndefined"
    and "releaseLock_error E = None"
  shows "\<exists>post. published (fst (dug_steamcmd E gameInfo request s)) = published s @ post
           \<and> length (filter (is_terminal request) post) = 1"
proof -
  let ?s1 = "foldl (on_sink E request) s (streamed E)"
  obtain ms where ms: "published ?s1 = published s @ ms"
      "list_all (\<lambda>m. \<not> is_terminal request m) ms"
    using published_foldl_on_sink by blast
  then have f0: "filter (is_terminal request) ms = []"
    by (simp add: list_all_iff)
  show ?thesis
  proof (cases "downloadSelf E")
    case Pending
    with assms(1) show ?thesis by (simp add: work_settles_def)
  next
    case (Rejected e)
    with assms(2,3) have "e \<noteq> JNull \<and> e \<noteq> JUndefined"
      by (simp add: rejection_of_def)
    with Rejected show ?thesis
      by (simp add: dug_steamcmd_def published_dug_catch)
  next
    case (Resolved u)
    show ?thesis
    proof (cases "downloadAppid E")
      case Pending
      with Resolved assms(1) show ?thesis by (simp add: work_settles_def)
    next
      case (Rejected e)
      with Resolved assms(2,3) have "e \<noteq> JNull \<and> e \<noteq> JUndefined"
        by (simp add: rejection_of_def)
      with Resolved Rejected ms f0 show ?thesis
        by (simp add: dug_steamcmd_def Let_def published_dug_catch)
    next
      case res: (Resolved result)
      let ?f = "\<lambda>r. r\<lparr>tr_downloadLocked := Some False,
                        tr_downloadState := Some (get_prop result ''status'')\<rparr>"
      show ?thesis
      proof (cases "update_download (gameId_of request) ?f ?s1")
        case (Inl e)
        with Resolved res ms f0 show ?thesis
          by (simp add: dug_steamcmd_def Let_def published_dug_catch)
      next
        case (Inr s2)
        then have p2: "published s2 = published ?s1"
          by (rule update_download_fields)
        with Resolved res Inr ms f0 assms(4) show ?thesis
          by (simp add: dug_steamcmd_def Let_def releaseLock_def)
      qed
    qed
  qed
qed

lemma fst_downloadUpdateGame: "fst (downloadUpdateGame E s request) = fst (dug E s request)"
  by (simp add: downloadUpdateGame_def split: prod.splits option.splits)

lemma dug_prepare_ack:
  assumes "runningDownloads s (gameId_of request) = Some r"
    and "\<not> truthy (get_prop request ''steamcmdMultiFactorEnabled'')"
  shows "\<exists>s2. dug_prepare E request s = (s2, None)
           \<and> published s2 = published s
               @ [sendRequestReply ''downloadManager'' (now E) ''ack''
                    [(''subscribeTo'', get_prop request ''replyTo''),
                     (''requestId'', get_prop request ''requestId'')] request]"
  using assms by (simp add: dug_prepare_def update_download_def)

lemma dug_spinLock_ok:
  assumes "spinLock_error E = None"
  shows "\<exists>s1. dug_spinLock E request s = (s1, None) \<and> published s1 = published s
           \<and> runningDownloads s1 = runningDownloads s"
  using assms by (simp add: dug_spinLock_def)

lemma dug_spinClear_ok:
  assumes "spinClear_error E = None"
  shows "dug_spinClear E request s = (s, None)"
  using assms by (simp add: dug_spinClear_def)

lemma dug_prepare_multifactor:
  assumes "runningDownloads s (gameId_of request) = Some r"
    and "truthy (get_prop request ''steamcmdMultiFactorEnabled'')"
  shows "\<exists>s2 e. dug_prepare E request s = (s2, Some e)
           \<and> published s2 = published s
               @ [sendRequestReply ''downloadManager'' (now E) ''error''
                    [(''error'', JStr ''multifactor auth not supported'')] request]"
  using assms
  by (auto simp: dug_prepare_def update_download_def Let_def releaseLock_def
        split: option.splits)

lemma dug_reaches_ack:
  assumes "reaches_ack E s request" "loadManifest E (gameId_of request) = Inr gameInfo"
  shows "\<exists>s_ack. dug E s request = dug_run E gameInfo request s_ack
           \<and> published s_ack = published s
               @ [sendRequestReply ''downloadManager'' (now E) ''ack''
                    [(''subscribeTo'', get_prop request ''replyTo''),
                     (''requestId'', get_prop request ''requestId'')] request]"
proof -
  let ?s0 = "set_download (gameId_of request) (new_record request gameInfo) s"
  from assms(1) have r: "truthy (get_prop request ''gameId'')"
      "get_prop request ''gameId'' \<in> set (map JStr supportedGames)"
      "runningDownloads s (gameId_of request) = None"
      "spinLock_error E = None" "spinClear_error E = None"
      "\<not> truthy (get_prop request ''steamcmdMultiFactorEnabled'')"
    by (simp_all add: reaches_ack_def)
  obtain s1 where l: "dug_spinLock E request ?s0 = (s1, None)"
      "published s1 = published ?s0" "runningDownloads s1 = runningDownloads ?s0"
    using dug_spinLock_ok [OF r(4)] by blast
  have c: "dug_spinClear E request s1 = (s1, None)"
    using r(5) by (rule dug_spinClear_ok)
  have "runningDownloads s1 (gameId_of request) = Some (new_record request gameInfo)"
    using l(3) by simp
  from dug_prepare_ack [OF this r(6), of E]
  obtain s2 where p: "dug_prepare E request s1 = (s2, None)"
      "published s2 = published s1
               @ [sendRequestReply ''downloadManager'' (now E) ''ack''
                    [(''subscribeTo'', get_prop request ''replyTo''),
                     (''requestId'', get_prop request ''requestId'')] request]"
    by blast
  have "dug E s request = dug_run E gameInfo request s2"
    using r(1,2,3) assms(2) l(1) c p(1) by (simp add: dug_def and_then_def)
  then show ?thesis using p(2) l(2) by auto
qed

lemma not_acked:
  assumes "\<not> reaches_ack E s request"
  shows "\<not> acked request (new_messages E s request)"
proof -
  have "list_all (\<lambda>m. msg_subchannel m \<noteq> ''ack'')
          (drop (length (published s)) (published (fst (dug E s request))))"
  proof (cases "truthy (get_prop request ''gameId'')
                \<and> get_prop request ''gameId'' \<in> set (map JStr supportedGames)")
    case False
    then show ?thesis by (auto simp: dug_def)
  next
    case v: True
    show ?thesis
    proof (cases "loadManifest E (gameId_of request)")
      case (Inl message)
      with v show ?thesis
        by (auto simp: dug_def Let_def releaseLock_def split: option.splits)
    next
      case (Inr gameInfo)
      show ?thesis
      proof (cases "runningDownloads s (gameId_of request)")
        case (Some entry)
        with v Inr show ?thesis
          by (auto simp: dug_def split: option.splits)
      next
        case None
        let ?s0 = "set_download (gameId_of request) (new_record request gameInfo) s"
        have d: "dug E s request = and_then (dug_spinLock E request ?s0)
                    (\<lambda>s. and_then (dug_spinClear E request s)
                    (\<lambda>s. and_then (dug_prepare E request s)
                    (dug_run E gameInfo request)))"
          using v Inr None by (simp add: dug_def)
        show ?thesis
        proof (cases "spinLock_error E")
          case (Some message)
          then show ?thesis by (simp add: d dug_spinLock_def and_then_def)
        next
          case sl: None
          obtain s1 where l: "dug_spinLock E request ?s0 = (s1, None)"
              "published s1 = published ?s0" "runningDownloads s1 = runningDownloads ?s0"
            using dug_spinLock_ok [OF sl] by blast
          show ?thesis
          proof (cases "spinClear_error E")
            case (Some message)
            then show ?thesis
              using l(2)
              by (auto simp: d l(1) dug_spinClear_def and_then_def Let_def releaseLock_def
                    split: option.splits)
          next
            case sc: None
            have c: "dug_spinClear E request s1 = (s1, None)"
              using sc by (rule dug_spinClear_ok)
            from assms v Inr None sl sc
            have mf: "truthy (get_prop request ''steamcmdMultiFactorEnabled'')"
              by (simp add: reaches_ack_def)
            have "runningDownloads s1 (gameId_of request)
                  = Some (new_record request gameInfo)"
              using l(3) by simp
            from dug_prepare_multifactor [OF this mf, of E]
            obtain s2 e where p: "dug_prepare E request s1 = (s2, Some e)"
                "published s2 = published s1
                   @ [sendRequestReply ''downloadManager'' (now E) ''error''
                        [(''error'', JStr ''multifactor auth not supported'')] request]"
              by blast
            show ?thesis
              using l(2) by (simp add: d l(1) c p and_then_def)
          qed
        qed
      qed
    qed
  qed
  then show ?thesis
    by (auto simp: acked_def new_messages_def is_ack_def list_all_iff list_ex_iff
          fst_downloadUpdateGame)
qed

lemma published_dug_run_extends:
  "\<exists>post. published (fst (dug_run E gameInfo request s)) = published s @ post"
proof (cases "get_prop gameInfo ''downloadType'' = JStr ''steamcmd''")
  case False
  then show ?thesis by (simp add: dug_run_def published_dug_unsupported)
next
  case True
  obtain ms where ms: "published (foldl (on_sink E request) s (streamed E)) = published s @ ms"
    using published_foldl_on_sink by blast
  show ?thesis
  proof (cases "downloadSelf E")
    case Pending
    with True show ?thesis by (simp add: dug_run_def dug_steamcmd_def)
  next
    case (Rejected e)
    with True show ?thesis by (simp add: dug_run_def dug_steamcmd_def published_dug_catch)
  next
    case (Resolved u)
    show ?thesis
    proof (cases "downloadAppid E")
      case Pending
      with True Resolved ms show ?thesis by (simp add: dug_run_def dug_steamcmd_def Let_def)
    next
      case (Rejected e)
      with True Resolved ms show ?thesis
        by (simp add: dug_run_def dug_steamcmd_def Let_def published_dug_catch)
    next
      case res: (Resolved result)
      with True Resolved ms show ?thesis
        by (auto simp: dug_run_def dug_steamcmd_def Let_def published_dug_catch
              releaseLock_def update_download_def split: option.splits)
    qed
  qed
qed

lemma new_messages_reaches_ack:
  assumes "reaches_ack E s request" "loadManifest E (gameId_of request) = Inr gameInfo"
  shows "\<exists>s_ack post.
           published (fst (dug_run E gameInfo request s_ack)) = published s_ack @ post
         \<and> acked request (new_messages E s request)
         \<and> terminals_after_ack request (new_messages E s request)
             = filter (is_terminal request) post"
proof -
  let ?ack = "sendRequestReply ''downloadManager'' (now E) ''ack''
                [(''subscribeTo'', get_prop request ''replyTo''),
                 (''requestId'', get_prop request ''requestId'')] request"
  from dug_reaches_ack [OF assms]
  obtain s_ack where a: "dug E s request = dug_run E gameInfo request s_ack"
      "published s_ack = published s @ [?ack]"
    by blast
  obtain post where post:
      "published (fst (dug_run E gameInfo request s_ack)) = published s_ack @ post"
    using published_dug_run_extends by blast
  have ia: "is_ack request ?ack"
    by (simp add: is_ack_def replyTo_of_def)
  have n: "new_messages E s request = ?ack # post"
    by (simp add: new_messages_def fst_downloadUpdateGame a post)
  have "terminals_after_ack request (new_messages E s request)
      = filter (is_terminal request) post"
    using ia by (simp add: n terminals_after_ack_def)
  moreover have "acked request (new_messages E s request)"
    using ia by (simp add: n acked_def)
  ultimately show ?thesis using post by blast
qed

lemma terminals_when_settled:
  assumes "reaches_ack E s request"
    and "work_settles E"
    and "rejection_of E \<noteq> Some JNull" "rejection_of E \<noteq> Some JUndefined"
    and "releaseLock_error E = None"
  shows "length (terminals_after_ack request (new_messages E s request)) = 1"
proof -
  from assms(1) obtain gameInfo where g: "loadManifest E (gameId_of request) = Inr gameInfo"
    by (auto simp: reaches_ack_def split: sum.splits)
  from new_messages_reaches_ack [OF assms(1) g]
  obtain s_ack post where
    p: "published (fst (dug_run E gameInfo request s_ack)) = published s_ack @ post"
    and t: "terminals_after_ack request (new_messages E s request)
             = filter (is_terminal request) post"
    by blast
  show ?thesis
  proof (cases "get_prop gameInfo ''downloadType'' = JStr ''steamcmd''")
    case False
    with p have "post = [sendRequestReply ''downloadManager'' (now E) ''error''
                    [(''error'', JErr ''unsupported request'')] request]"
      by (simp add: dug_run_def published_dug_unsupported)
    with t show ?thesis by simp
  next
    case True
    from terminals_dug_steamcmd [OF assms(2-5), of gameInfo request s_ack]
    obtain post' where
      "published (fst (dug_steamcmd E gameInfo request s_ack)) = published s_ack @ post'"
      "length (filter (is_terminal request) post') = 1"
      by blast
    with True p have "length (filter (is_terminal request) post) = 1"
      by (simp add: dug_run_def)
    with t show ?thesis by simp
  qed
qed

lemma acked_reaches_ack:
  "acked request (new_messages E s request) = reaches_ack E s request"
proof
  assume "acked request (new_messages E s request)"
  then show "reaches_ack E s request" using not_acked by blast
next
  assume r: "reaches_ack E s request"
  then obtain gameInfo where g: "loadManifest E (gameId_of request) = Inr gameInfo"
    by (auto simp: reaches_ack_def split: sum.splits)
  from new_messages_reaches_ack [OF r g]
  show "acked request (new_messages E s request)" by blast
qed

text \<open>
  After the \<open>ack\<close> of a request, exactly one terminal message (a \<open>finalStatus\<close> or an
  \<open>error\<close>) is published on the request's channel when the steamcmd calls settle and
  the lock is released without error: on success and on cancel (the promise resolves)
  and on failure (it rejects with an \<open>Error\<close> or with the exit object of the tool).
\<close>

lemma one_terminal_when_release_succeeds:
  assumes "acked request (new_messages E s request)"
    and "work_settles E"
    and "rejection_of E \<noteq> Some JNull" "rejection_of E \<noteq> Some JUndefined"
    and "releaseLock_error E = None"
  shows "length (terminals_after_ack request (new_messages E s request)) = 1"
proof -
  from assms(1) have r: "reaches_ack E s request"
    by (simp add: acked_reaches_ack)
  show ?thesis
    using terminals_when_settled [OF r assms(2-5)] .
qed

lemma reaches_ack_init_csgo:
  assumes "loadManifest E = manifests" "spinLock_error E = None" "spinClear_error E = None"
  shows "reaches_ack E init_state (csgo_request ''r1'')"
  using assms
  by (simp add: reaches_ack_def csgo_request_def get_prop_def supportedGames_def
        gameId_of_def init_state_def manifests_def)

lemma uses_steamcmd_csgo:
  assumes "loadManifest E = manifests"
  shows "uses_steamcmd E (csgo_request ''r1'')"
  using assms
  by (simp add: uses_steamcmd_def csgo_request_def get_prop_def gameId_of_def manifests_def
        csgo_manifest_def)

lemma one_terminal_download_ok:
  "length (terminals_after_ack (csgo_request ''r1'')
        (new_messages download_ok init_state (csgo_request ''r1''))) = 1"
proof -
  have r: "reaches_ack download_ok init_state (csgo_request ''r1'')"
    by (rule reaches_ack_init_csgo) (simp_all add: download_ok_def)
  then have a: "acked (csgo_request ''r1'')
      (new_messages download_ok init_state (csgo_request ''r1''))"
    by (simp add: acked_reaches_ack)
  have h: "work_settles download_ok" "rejection_of download_ok = None"
      "releaseLock_error download_ok = None"
    by (simp_all add: work_settles_def rejection_of_def download_ok_def)
  from one_terminal_when_release_succeeds [OF a] h show ?thesis by simp
qed

lemma validation_error_keeps_state:
  assumes "\<not> truthy (get_prop request ''gameId'')
         \<or> get_prop request ''gameId'' \<notin> set (map JStr supportedGames)"
  shows "lockDir (fst (downloadUpdateGame E s request)) = lockDir s"
    "runningDownloads (fst (downloadUpdateGame E s request)) = runningDownloads s"
  using assms by (auto simp: downloadUpdateGame_def dug_def)

text \<open>
  Claim C7 where the manifest cannot be loaded. The lock directory holds a lock file
  \<open>downloadGame-csgo\<close> that this request did not create. The handler reports the
  error and then calls \<open>releaseLock(globalLockId)\<close>, which removes that file.
\<close>

theorem manifest_failure_removes_lock:
  "lockDir stale_game_lock = [''downloadManager'', ''downloadGame-csgo'']
   \<and> loadManifest manifest_missing ''csgo'' = Inl ''Cannot find module''
   \<and> map topic (new_messages manifest_missing stale_game_lock (csgo_request ''r1''))
       = [''cli.r1.error'']
   \<and> snd (downloadUpdateGame manifest_missing stale_game_lock (csgo_request ''r1'')) = Returned
   \<and> lockDir (fst (downloadUpdateGame manifest_missing stale_game_lock (csgo_request ''r1'')))
       = [''downloadManager'']"
  by (simp add: new_messages_def downloadUpdateGame_def dug_def csgo_request_def get_prop_def
        supportedGames_def init_state_def download_ok_def manifest_missing_def
        stale_game_lock_def no_manifests_def releaseLock_def gameId_of_def globalLockId_def
        topic_def)

text \<open>
  Claim C8 at a request for the unsupported game \<open>xyzzy\<close>. The handler passes
  \<open>{ error: new Error('gameId unsupported') }\<close> to \<open>sendRequestReply\<close>, which publishes
  \<open>JSON.stringify(message)\<close>: the \<open>Error\<close> object prints as \<open>{}\<close>, and the text of the
  message is nowhere in the payload.
\<close>

theorem unsupported_gameId_payload_has_no_message:
  "get_prop xyzzy_request ''gameId'' = JStr ''xyzzy''
   \<and> ''xyzzy'' \<notin> set supportedGames
   \<and> new_messages download_ok init_state xyzzy_request
       = [\<lparr>msg_channel = ''cli.r9'', msg_subchannel = ''error'',
           msg_payload = ''{\"error\":{},\"requestId\":\"r9\",\"moduleIdent\":\"downloadManager\",\"timestamp\":1000}''\<rparr>]
   \<and> \<not> sublist ''gameId unsupported''
         ''{\"error\":{},\"requestId\":\"r9\",\"moduleIdent\":\"downloadManager\",\"timestamp\":1000}''"
proof -
  have p: "JSON_stringify (JObj [(''error'', JErr ''gameId unsupported''),
              (''requestId'', JStr ''r9''), (''moduleIdent'', JStr ''downloadManager''),
              (''timestamp'', JNum 1000)])
      = Some ''{\"error\":{},\"requestId\":\"r9\",\"moduleIdent\":\"downloadManager\",\"timestamp\":1000}''"
    by code_simp
  have sr: "sendRequestReply ''downloadManager'' 1000 ''error''
              [(''error'', JErr ''gameId unsupported'')] xyzzy_request
      = \<lparr>msg_channel = ''cli.r9'', msg_subchannel = ''error'',
         msg_payload =
           (case JSON_stringify (JObj [(''error'', JErr ''gameId unsupported''),
              (''requestId'', JStr ''r9''), (''moduleIdent'', JStr ''downloadManager''),
              (''timestamp'', JNum 1000)]) of Some t \<Rightarrow> t | None \<Rightarrow> ''undefined'')\<rparr>"
    by (simp add: sendRequestReply_def Let_def xyzzy_request_def get_prop_def
          del: JSON_stringify.simps)
  have nm: "new_messages download_ok init_state xyzzy_request
       = [sendRequestReply ''downloadManager'' 1000 ''error''
              [(''error'', JErr ''gameId unsupported'')] xyzzy_request]"
    by (simp add: new_messages_def downloadUpdateGame_def dug_def
          supportedGames_def init_state_def download_ok_def)
       (simp add: xyzzy_request_def get_prop_def)
  have m: "new_messages download_ok init_state xyzzy_request
       = [\<lparr>msg_channel = ''cli.r9'', msg_subchannel = ''error'',
           msg_payload = ''{\"error\":{},\"requestId\":\"r9\",\"moduleIdent\":\"downloadManager\",\"timestamp\":1000}''\<rparr>]"
    by (simp only: nm sr p option.case)
  have n: "\<not> sublist ''gameId unsupported''
         ''{\"error\":{},\"requestId\":\"r9\",\"moduleIdent\":\"downloadManager\",\"timestamp\":1000}''"
    by code_simp
  have g: "get_prop xyzzy_request ''gameId'' = JStr ''xyzzy''"
    by (simp add: xyzzy_request_def get_prop_def)
  have u: "''xyzzy'' \<notin> set supportedGames"
    by (simp add: supportedGames_def)
  from g u m n show ?thesis by blast
qed

text \<open>
  When the lock cannot be released after a successful download, the \<open>finalStatus\<close> is
  already published and the \<open>catch\<close> block publishes an \<open>error\<close> as well.
\<close>

lemma release_failure_after_finalStatus:
  assumes "reaches_ack E s request" "uses_steamcmd E request"
    and "downloadSelf E = Resolved ()" "downloadAppid E = Resolved result"
    and "releaseLock_error E = Some message" "streamed E = []"
  shows "map msg_subchannel (terminals_after_ack request (new_messages E s request))
         = [''finalStatus'', ''error'']"
proof -
  from assms(1) obtain gameInfo where g: "loadManifest E (gameId_of request) = Inr gameInfo"
    by (auto simp: reaches_ack_def split: sum.splits)
  from assms(1) have r: "truthy (get_prop request ''gameId'')"
      "get_prop request ''gameId'' \<in> set (map JStr supportedGames)"
      "runningDownloads s (gameId_of request) = None"
      "spinLock_error E = None" "spinClear_error E = None"
      "\<not> truthy (get_prop request ''steamcmdMultiFactorEnabled'')"
    by (simp_all add: reaches_ack_def)
  from assms(2) g have st: "get_prop gameInfo ''downloadType'' = JStr ''steamcmd''"
    by (simp add: uses_steamcmd_def)
  show ?thesis
    using r g st assms(3-6)
    by (simp add: new_messages_def fst_downloadUpdateGame dug_def dug_spinLock_def
          dug_spinClear_def dug_prepare_def dug_run_def dug_steamcmd_def dug_catch_def
          and_then_def update_download_def releaseLock_def terminals_after_ack_def
          is_ack_def is_terminal_def replyTo_of_def Let_def)
qed

lemma tasks_validated_cancelDownload_ackCanceled:
  assumes "tasks_validated E s"
  shows "tasks_validated E (cancelDownload_ackCanceled E' rmSync_error cancelRequest s)"
proof -
  have "inflight_from s (cancelDownload_ackCanceled E' rmSync_error cancelRequest s)"
    by (rule inflight_from_blank) (simp add: cancelDownload_ackCanceled_def Let_def)
  with assms show ?thesis by (rule tasks_validated_inflight_from)
qed

text \<open>
  An entry blanked by an error path or by a cancel stays in the table without its
  request; a later request for the same game then throws a TypeError in the handler
  and nothing is published.
\<close>

lemma blank_entry_throws:
  assumes "get_prop request ''gameId'' = JStr gameId" "gameId \<in> set supportedGames"
    and "loadManifest E gameId = Inr gameInfo"
    and "runningDownloads s gameId = Some blank_record"
  shows "downloadUpdateGame E s request
         = (s, Threw (TypeError ''Cannot read properties of undefined''))"
proof -
  have gid: "gameId_of request = gameId"
    using assms(1) by (simp add: gameId_of_def)
  have tr: "truthy (get_prop request ''gameId'')"
    using assms(1,2) by (auto simp: supportedGames_def)
  have mem: "get_prop request ''gameId'' \<in> set (map JStr supportedGames)"
    using assms(1,2) by simp
  show ?thesis
    using tr mem gid assms(3,4)
    by (simp add: downloadUpdateGame_def dug_def blank_record_def)
qed


lemma release_fails_reaches_ack: "reaches_ack release_fails init_state (csgo_request ''r1'')"
  by (rule reaches_ack_init_csgo) (simp_all add: release_fails_def download_ok_def)

lemma release_fails_topics:
  "map topic (new_messages release_fails init_state (csgo_request ''r1''))
   = [''cli.r1.ack'', ''cli.r1.finalStatus'', ''cli.r1.error'']"
  by (simp add: new_messages_def fst_downloadUpdateGame dug_def dug_spinLock_def
        dug_spinClear_def dug_prepare_def dug_run_def dug_steamcmd_def dug_catch_def
        and_then_def update_download_def releaseLock_def Let_def topic_def
        release_fails_def download_ok_def init_state_def manifests_def csgo_manifest_def
        supportedGames_def gameId_of_def csgo_request_def get_prop_def)

lemma release_fails_end:
  "snd (downloadUpdateGame release_fails init_state (csgo_request ''r1''))
   = Threw (ThrownError ''Could not create lockfile directory at /tmp/gsm'')"
  by (simp add: downloadUpdateGame_def dug_def dug_spinLock_def
        dug_spinClear_def dug_prepare_def dug_run_def dug_steamcmd_def dug_catch_def
        and_then_def update_download_def releaseLock_def Let_def
        release_fails_def download_ok_def init_state_def manifests_def csgo_manifest_def
        supportedGames_def gameId_of_def csgo_request_def get_prop_def)

text \<open>
  Claim C2 where the lock cannot be released after a successful download. The request
  is acknowledged, the download completes and the \<open>finalStatus\<close> is published; then
  \<open>await releaseLock(globalLockId)\<close>, inside the same \<open>try\<close>, rejects, and the \<open>catch\<close>
  block meant for the errors of steamcmd publishes an \<open>error\<close> on the same channel: two
  terminal messages follow the \<open>ack\<close>. The second \<open>releaseLock\<close>, in the \<open>catch\<close> block,
  rejects as well and the handler ends by throwing.
\<close>

theorem release_failure_two_terminals:
  "releaseLock_error release_fails = Some ''Could not create lockfile directory at /tmp/gsm''
   \<and> downloadAppid release_fails = Resolved completed_result
   \<and> acked (csgo_request ''r1'') (new_messages release_fails init_state (csgo_request ''r1''))
   \<and> map topic (new_messages release_fails init_state (csgo_request ''r1''))
       = [''cli.r1.ack'', ''cli.r1.finalStatus'', ''cli.r1.error'']
   \<and> map msg_subchannel (terminals_after_ack (csgo_request ''r1'')
         (new_messages release_fails init_state (csgo_request ''r1'')))
       = [''finalStatus'', ''error'']
   \<and> length (terminals_after_ack (csgo_request ''r1'')
         (new_messages release_fails init_state (csgo_request ''r1''))) = 2
   \<and> snd (downloadUpdateGame release_fails init_state (csgo_request ''r1''))
       = Threw (ThrownError ''Could not create lockfile directory at /tmp/gsm'')"
proof -
  have e: "releaseLock_error release_fails
      = Some ''Could not create lockfile directory at /tmp/gsm''"
      "downloadAppid release_fails = Resolved completed_result"
      "downloadSelf release_fails = Resolved ()" "streamed release_fails = []"
    by (simp_all add: release_fails_def download_ok_def)
  have u: "uses_steamcmd release_fails (csgo_request ''r1'')"
    by (rule uses_steamcmd_csgo) (simp add: release_fails_def download_ok_def)
  have a: "acked (csgo_request ''r1'')
      (new_messages release_fails init_state (csgo_request ''r1''))"
    using release_fails_reaches_ack by (simp add: acked_reaches_ack)
  have t: "map msg_subchannel (terminals_after_ack (csgo_request ''r1'')
         (new_messages release_fails init_state (csgo_request ''r1'')))
       = [''finalStatus'', ''error'']"
    using release_failure_after_finalStatus [OF release_fails_reaches_ack u e(3) e(2) e(1) e(4)] .
  from arg_cong [OF t, of length]
  have l: "length (terminals_after_ack (csgo_request ''r1'')
         (new_messages release_fails init_state (csgo_request ''r1''))) = 2"
    by simp
  from e(1,2) a release_fails_topics t l release_fails_end show ?thesis by blast
qed

lemma tool_fails_topics:
  "map topic (new_messages tool_fails init_state (csgo_request ''r1''))
   = [''cli.r1.ack'', ''cli.r1.error'']"
  by (simp add: new_messages_def fst_downloadUpdateGame dug_def dug_spinLock_def
        dug_spinClear_def dug_prepare_def dug_run_def dug_steamcmd_def dug_catch_def
        and_then_def update_download_def releaseLock_def Let_def topic_def
        tool_fails_def download_ok_def init_state_def manifests_def csgo_manifest_def
        supportedGames_def gameId_of_def csgo_request_def get_prop_def)

lemma after_failed_download_entry:
  "runningDownloads after_failed_download ''csgo'' = Some blank_record"
  by (simp add: after_failed_download_def fst_downloadUpdateGame dug_def dug_spinLock_def
        dug_spinClear_def dug_prepare_def dug_run_def dug_steamcmd_def dug_catch_def
        and_then_def update_download_def releaseLock_def Let_def
        tool_fails_def download_ok_def init_state_def manifests_def csgo_manifest_def
        supportedGames_def gameId_of_def csgo_request_def get_prop_def)

lemma after_failed_download_lockDir:
  "lockDir after_failed_download = [''downloadManager'']"
  by (simp add: after_failed_download_def fst_downloadUpdateGame dug_def dug_spinLock_def
        dug_spinClear_def dug_prepare_def dug_run_def dug_steamcmd_def dug_catch_def
        and_then_def update_download_def releaseLock_def Let_def globalLockId_def
        tool_fails_def download_ok_def init_state_def manifests_def csgo_manifest_def
        supportedGames_def gameId_of_def csgo_request_def get_prop_def)

lemma tasks_validated_after_failed_download: "tasks_validated download_ok after_failed_download"
  unfolding after_failed_download_def
  by (rule tasks_validated_downloadUpdateGame [OF tasks_validated_init])
     (simp add: tool_fails_def)

text \<open>
  Claim C1 after a failed download. The request \<open>r1\<close> for \<open>csgo\<close> is acknowledged and
  then fails (the tool exits with code 8): the \<open>catch\<close> block publishes the \<open>error\<close>,
  releases the lock and leaves \<open>{}\<close> under the key \<open>csgo\<close> of \<open>runningDownloads\<close>. A second
  request \<open>r2\<close> for \<open>csgo\<close> finds the key in the table and takes the branch that sends the
  \<open>nack\<close>; reading \<open>runningDownloads[request.gameId].request.replyTo\<close> throws a TypeError
  before anything is published: the second request gets no \<open>nack\<close>, and no reply at all.
\<close>

theorem duplicate_request_after_failure_gets_no_nack:
  "map topic (new_messages tool_fails init_state (csgo_request ''r1''))
     = [''cli.r1.ack'', ''cli.r1.error'']
   \<and> runningDownloads after_failed_download ''csgo'' = Some blank_record
   \<and> lockDir after_failed_download = [''downloadManager'']
   \<and> get_prop (csgo_request ''r2'') ''gameId'' = JStr ''csgo''
   \<and> new_messages download_ok after_failed_download (csgo_request ''r2'') = []
   \<and> downloadUpdateGame download_ok after_failed_download (csgo_request ''r2'')
       = (after_failed_download, Threw (TypeError ''Cannot read properties of undefined''))"
proof -
  have g: "get_prop (csgo_request ''r2'') ''gameId'' = JStr ''csgo''"
    by (simp add: csgo_request_def get_prop_def)
  have sup: "''csgo'' \<in> set supportedGames"
    by (simp add: supportedGames_def)
  have man: "loadManifest download_ok ''csgo'' = Inr csgo_manifest"
    by (simp add: download_ok_def manifests_def)
  have d: "downloadUpdateGame download_ok after_failed_download (csgo_request ''r2'')
       = (after_failed_download, Threw (TypeError ''Cannot read properties of undefined''))"
    using blank_entry_throws [OF g sup man after_failed_download_entry] .
  then have n: "new_messages download_ok after_failed_download (csgo_request ''r2'') = []"
    by (simp add: new_messages_def)
  from tool_fails_topics after_failed_download_entry after_failed_download_lockDir g n d
  show ?thesis by blast
qed
end
